theory Spec2Isabelle
  imports Complex_Main "HOL-Library.Log_Nat"
begin

section \<open>JavaScript values\<close>

text \<open>
  Numbers are IEEE 754 doubles in the engine.  The model keeps the special values
  \<open>NaN\<close>, \<open>Infinity\<close> and \<open>-Infinity\<close> and carries a finite number as the
  rational it stands for; the arithmetic of the section on numbers rounds every result to
  the nearest double.  \<open>-0\<close> is identified with \<open>0\<close>.
\<close>

datatype jsnum = NaN | NegInf | Fin rat | PosInf

datatype jsval = Undefined | Null | Bool bool | Num jsnum | Str string | Ref nat

text \<open>\<open>a === b\<close>: no conversion, and \<open>NaN\<close> is different from itself.\<close>

definition strict_eq :: "jsval \<Rightarrow> jsval \<Rightarrow> bool" where
  "strict_eq a b = (a = b \<and> a \<noteq> Num NaN)"

text \<open>The truthiness test of \<open>if (v)\<close> and \<open>!v\<close>.\<close>

fun truthy :: "jsval \<Rightarrow> bool" where
  "truthy Undefined = False"
| "truthy Null = False"
| "truthy (Bool b) = b"
| "truthy (Num NaN) = False"
| "truthy (Num (Fin q)) = (q \<noteq> 0)"
| "truthy (Num NegInf) = True"
| "truthy (Num PosInf) = True"
| "truthy (Str s) = (s \<noteq> [])"
| "truthy (Ref r) = True"

text \<open>
  What a call can throw.  \<open>IllTyped\<close> marks a value that has not the type the code
  expects of it (an animation asset where a state graph asset is looked up, say): what
  the engine does with it is outside this model.
\<close>

datatype js_error = TypeError | Error string | IllTyped

section \<open>Component base: schema accessors and the enabled hook\<close>

text \<open>
  A schema entry is either a plain property name or an object that has a \<open>name\<close>
  member (the scrollbar schema uses objects with a name and a type).
\<close>

datatype descriptor = PlainName string | Described string string

fun descriptor_name :: "descriptor \<Rightarrow> string" where
  "descriptor_name (PlainName n) = n"
| "descriptor_name (Described n ty) = n"

definition scrollbar_schema :: "descriptor list" where
  "scrollbar_schema =
     [Described ''enabled'' ''boolean'', Described ''orientation'' ''number'',
      Described ''value'' ''number'', Described ''handleSize'' ''number'',
      Described ''handleEntity'' ''entity'']"

datatype hook = OnEnable | OnDisable

record fired =
  ev_name :: string
  ev_prop :: string
  ev_old :: jsval
  ev_new :: jsval

text \<open>
  The state a component's accessors read and write: the record of the component in
  its system's store (\<open>system.store[entity.getGuid()]\<close>, absent until the component is
  registered), the enabled flag of the owning entity, the names that have a generated
  accessor, the plain own properties, and two traces: the events fired on the
  component and the calls made to the \<open>onEnable\<close>/\<open>onDisable\<close> hooks.
\<close>

record component =
  store_record :: "(string \<rightharpoonup> jsval) option"
  entity_enabled :: bool
  accessors :: "string list"
  own_props :: "string \<rightharpoonup> jsval"
  fired_events :: "fired list"
  hook_calls :: "hook list"

text \<open>\<open>get data()\<close>: the data of the store record, or null.\<close>

definition data :: "component \<Rightarrow> (string \<rightharpoonup> jsval) option" where
  "data c = store_record c"

text \<open>Reading a member of an object: undefined when the member is absent.\<close>

definition member :: "(string \<rightharpoonup> jsval) \<Rightarrow> string \<Rightarrow> jsval" where
  "member d name = (case d name of None \<Rightarrow> Undefined | Some v \<Rightarrow> v)"

definition onEnable :: "component \<Rightarrow> component" where
  "onEnable c = c\<lparr>hook_calls := hook_calls c @ [OnEnable]\<rparr>"

definition onDisable :: "component \<Rightarrow> component" where
  "onDisable c = c\<lparr>hook_calls := hook_calls c @ [OnDisable]\<rparr>"

definition onSetEnabled :: "string \<Rightarrow> jsval \<Rightarrow> jsval \<Rightarrow> component \<Rightarrow> component" where
  "onSetEnabled name oldValue newValue c =
     (if \<not> strict_eq oldValue newValue then
        (if entity_enabled c then
           (if truthy newValue then onEnable c else onDisable c)
         else c)
      else c)"

text \<open>
  Modelled from the spec: \<open>EventHandler.fire\<close> and \<open>EventHandler.on\<close>
  (core/event-handler.js is not part of the sources).  Firing an event delivers it, with
  its arguments, to the listeners registered under its name, in this model after recording
  it in the trace.  The listeners are the two the \<open>Component\<close> constructor registers:
  the one on \<open>set\<close>, which fires \<open>set_<name>\<close> with the same arguments, and
  \<open>onSetEnabled\<close> on \<open>set_enabled\<close>.
\<close>

definition record_event :: "string \<Rightarrow> string \<Rightarrow> jsval \<Rightarrow> jsval \<Rightarrow> component \<Rightarrow> component" where
  "record_event ev name oldValue newValue c =
     c\<lparr>fired_events := fired_events c @
          [\<lparr>ev_name = ev, ev_prop = name, ev_old = oldValue, ev_new = newValue\<rparr>]\<rparr>"

definition fire_named :: "string \<Rightarrow> string \<Rightarrow> jsval \<Rightarrow> jsval \<Rightarrow> component \<Rightarrow> component" where
  "fire_named ev name oldValue newValue c =
     (let c1 = record_event ev name oldValue newValue c
      in if ev = ''set_enabled'' then onSetEnabled name oldValue newValue c1 else c1)"

definition fire :: "string \<Rightarrow> string \<Rightarrow> jsval \<Rightarrow> jsval \<Rightarrow> component \<Rightarrow> component" where
  "fire ev name oldValue newValue c =
     (if ev = ''set''
      then fire_named (''set_'' @ name) name oldValue newValue
             (record_event ev name oldValue newValue c)
      else fire_named ev name oldValue newValue c)"

text \<open>
  \<open>Component._buildAccessors\<close>: one getter/setter pair per schema entry.
\<close>

definition buildAccessors :: "descriptor list \<Rightarrow> component \<Rightarrow> component" where
  "buildAccessors schema c = c\<lparr>accessors := accessors c @ map descriptor_name schema\<rparr>"

text \<open>
  The constructor, for a system with the given schema: the accessors are built, nothing
  has been fired and no hook has run.
\<close>

definition new_component :: "descriptor list \<Rightarrow> (string \<rightharpoonup> jsval) option \<Rightarrow> bool \<Rightarrow> component" where
  "new_component schema rec en =
     buildAccessors schema
       \<lparr>store_record = rec, entity_enabled = en, accessors = [], own_props = Map.empty,
        fired_events = [], hook_calls = []\<rparr>"

text \<open>
  The generated getter and setter.  With no store record \<open>this.data\<close> is null and
  reading or writing a member of it throws a TypeError.
\<close>

definition accessor_get :: "string \<Rightarrow> component \<Rightarrow> js_error + jsval" where
  "accessor_get name c =
     (case data c of None \<Rightarrow> Inl TypeError | Some d \<Rightarrow> Inr (member d name))"

definition accessor_set :: "string \<Rightarrow> jsval \<Rightarrow> component \<Rightarrow> js_error + component" where
  "accessor_set name v c =
     (case data c of
        None \<Rightarrow> Inl TypeError
      | Some d \<Rightarrow>
          (let oldValue = member d name;
               c1 = c\<lparr>store_record := Some (d(name \<mapsto> v))\<rparr>
           in Inr (fire ''set'' name oldValue v c1)))"

text \<open>
  The assignment \<open>component[name] = v\<close>: through the accessor when the name has one,
  a plain property write otherwise.
\<close>

definition assign :: "string \<Rightarrow> jsval \<Rightarrow> component \<Rightarrow> js_error + component" where
  "assign name v c =
     (if name \<in> set (accessors c) then accessor_set name v c
      else Inr (c\<lparr>own_props := (own_props c)(name \<mapsto> v)\<rparr>))"

text \<open>The events and hook calls of a run that were not there before it.\<close>

definition events_since :: "component \<Rightarrow> js_error + component \<Rightarrow> fired list" where
  "events_since c r = (case r of Inl e \<Rightarrow> [] | Inr c' \<Rightarrow> drop (length (fired_events c)) (fired_events c'))"

definition hooks_since :: "component \<Rightarrow> js_error + component \<Rightarrow> hook list" where
  "hooks_since c r = (case r of Inl e \<Rightarrow> [] | Inr c' \<Rightarrow> drop (length (hook_calls c)) (hook_calls c'))"

section \<open>Number arithmetic\<close>

text \<open>
  Rounding to the nearest double, ties to the even significand.  \<open>ilog2 q\<close> is the
  exponent of a positive rational, the integer \<open>e\<close> with \<open>2^e \<le> q < 2^(e + 1)\<close>.  A
  double has a significand of 53 bits, so a number of exponent \<open>e\<close> is rounded to a
  multiple of \<open>2^(e - 52)\<close>, and to a multiple of \<open>2^(-1074)\<close>, the least positive
  double, when it is smaller than that allows.  A result that reaches \<open>2^1024\<close> is
  infinite.
\<close>

definition ilog2 :: "rat \<Rightarrow> int" where
  "ilog2 q = (if 1 \<le> q then bitlen \<lfloor>q\<rfloor> - 1 else - bitlen (\<lceil>1 / q\<rceil> - 1))"

definition round_even :: "rat \<Rightarrow> int" where
  "round_even x =
     (let f = \<lfloor>x\<rfloor>; r = x - of_int f
      in if r < 1 / 2 then f else if 1 / 2 < r then f + 1 else if even f then f else f + 1)"

text \<open>The sign of an infinite result; zero counts as positive.\<close>

definition signed_inf :: "bool \<Rightarrow> jsnum" where
  "signed_inf positive = (if positive then PosInf else NegInf)"

definition rnd :: "rat \<Rightarrow> jsnum" where
  "rnd q =
     (if q = 0 then Fin 0
      else let e = max (- 1074) (ilog2 \<bar>q\<bar> - 52);
               r = of_int (round_even (q / 2 powi e)) * 2 powi e
           in if 2 ^ 1024 \<le> \<bar>r\<bar> then signed_inf (0 < q) else Fin r)"

text \<open>
  The rationals that are doubles are those rounding leaves as they are, and every
  number the engine holds is one of them, \<open>NaN\<close> or infinite.
\<close>

definition is_double :: "rat \<Rightarrow> bool" where
  "is_double q = (rnd q = Fin q)"

fun js_number :: "jsnum \<Rightarrow> bool" where
  "js_number (Fin q) = is_double q"
| "js_number x = True"

fun jneg :: "jsnum \<Rightarrow> jsnum" where
  "jneg NaN = NaN"
| "jneg NegInf = PosInf"
| "jneg (Fin a) = Fin (- a)"
| "jneg PosInf = NegInf"

text \<open>\<open>x + y\<close>, \<open>x - y\<close>, \<open>x * y\<close> and \<open>x / y\<close>: the exact result, rounded.\<close>

fun jadd :: "jsnum \<Rightarrow> jsnum \<Rightarrow> jsnum" where
  "jadd (Fin a) (Fin b) = rnd (a + b)"
| "jadd NaN y = NaN"
| "jadd x NaN = NaN"
| "jadd PosInf NegInf = NaN"
| "jadd NegInf PosInf = NaN"
| "jadd PosInf y = PosInf"
| "jadd x PosInf = PosInf"
| "jadd NegInf y = NegInf"
| "jadd x NegInf = NegInf"

definition jsub :: "jsnum \<Rightarrow> jsnum \<Rightarrow> jsnum" where
  "jsub x y = jadd x (jneg y)"

fun jmul :: "jsnum \<Rightarrow> jsnum \<Rightarrow> jsnum" where
  "jmul (Fin a) (Fin b) = rnd (a * b)"
| "jmul NaN y = NaN"
| "jmul x NaN = NaN"
| "jmul (Fin a) PosInf = (if a = 0 then NaN else signed_inf (0 < a))"
| "jmul (Fin a) NegInf = (if a = 0 then NaN else signed_inf (a < 0))"
| "jmul PosInf (Fin b) = (if b = 0 then NaN else signed_inf (0 < b))"
| "jmul NegInf (Fin b) = (if b = 0 then NaN else signed_inf (b < 0))"
| "jmul PosInf PosInf = PosInf"
| "jmul PosInf NegInf = NegInf"
| "jmul NegInf PosInf = NegInf"
| "jmul NegInf NegInf = PosInf"

text \<open>
  A division by zero gives \<open>NaN\<close> or an infinity with the sign of the dividend: the
  zero is taken as \<open>+0\<close>.  The layout calculator divides by a number that can be zero
  in \<open>calculateAdjustment\<close> only, by a sum of proportions when the proportion of the
  element is not below \<open>1e-5\<close>; such a sum has a summand other than zero, and a sum of
  doubles that cancel is \<open>+0\<close>.
\<close>

fun jdiv :: "jsnum \<Rightarrow> jsnum \<Rightarrow> jsnum" where
  "jdiv (Fin a) (Fin b) =
     (if b = 0 then (if a = 0 then NaN else signed_inf (0 < a)) else rnd (a / b))"
| "jdiv NaN y = NaN"
| "jdiv x NaN = NaN"
| "jdiv (Fin a) PosInf = Fin 0"
| "jdiv (Fin a) NegInf = Fin 0"
| "jdiv PosInf (Fin b) = signed_inf (0 \<le> b)"
| "jdiv NegInf (Fin b) = signed_inf (b < 0)"
| "jdiv PosInf PosInf = NaN"
| "jdiv PosInf NegInf = NaN"
| "jdiv NegInf PosInf = NaN"
| "jdiv NegInf NegInf = NaN"

text \<open>\<open>x < y\<close>; every comparison with \<open>NaN\<close> is false.\<close>

fun jlt :: "jsnum \<Rightarrow> jsnum \<Rightarrow> bool" where
  "jlt (Fin a) (Fin b) = (a < b)"
| "jlt NaN y = False"
| "jlt x NaN = False"
| "jlt x NegInf = False"
| "jlt NegInf y = True"
| "jlt PosInf y = False"
| "jlt x PosInf = True"

definition jgt :: "jsnum \<Rightarrow> jsnum \<Rightarrow> bool" where
  "jgt x y = jlt y x"

definition jle :: "jsnum \<Rightarrow> jsnum \<Rightarrow> bool" where
  "jle x y = (jlt x y \<or> (x = y \<and> x \<noteq> NaN))"

definition jge :: "jsnum \<Rightarrow> jsnum \<Rightarrow> bool" where
  "jge x y = jle y x"

text \<open>\<open>Math.max\<close>, \<open>Math.min\<close> and \<open>Math.abs\<close>: \<open>NaN\<close> as soon as an argument is.\<close>

definition jmax :: "jsnum \<Rightarrow> jsnum \<Rightarrow> jsnum" where
  "jmax x y = (if x = NaN \<or> y = NaN then NaN else if jlt x y then y else x)"

definition jmin :: "jsnum \<Rightarrow> jsnum \<Rightarrow> jsnum" where
  "jmin x y = (if x = NaN \<or> y = NaN then NaN else if jlt y x then y else x)"

fun jabs :: "jsnum \<Rightarrow> jsnum" where
  "jabs NaN = NaN"
| "jabs NegInf = PosInf"
| "jabs (Fin a) = Fin \<bar>a\<bar>"
| "jabs PosInf = PosInf"

text \<open>\<open>typeof v === 'number' && v % 1 === 0\<close>.\<close>

fun is_integer_number :: "jsval \<Rightarrow> bool" where
  "is_integer_number (Num (Fin a)) = (a = of_int \<lfloor>a\<rfloor>)"
| "is_integer_number v = False"

section \<open>Animation component\<close>

datatype param_type =
  ANIM_PARAMETER_INTEGER | ANIM_PARAMETER_FLOAT | ANIM_PARAMETER_BOOLEAN | ANIM_PARAMETER_TRIGGER

record parameter =
  ptype :: param_type
  pvalue :: jsval

text \<open>The state graph data: \<open>layers[{name, states[], transitions[]}]\<close> and \<open>parameters\<close>.\<close>

record state_desc =
  st_name :: string
  st_speed :: jsnum

record transition_desc =
  tr_from :: string
  tr_to :: string

record layer_desc =
  ld_name :: string
  ld_states :: "state_desc list"
  ld_transitions :: "transition_desc list"

record state_graph =
  sg_layers :: "layer_desc list"
  sg_parameters :: "(string \<times> parameter) list"

text \<open>
  Modelled from the spec: \<open>AnimComponentLayer\<close> and its \<open>AnimController\<close>
  (component-layer.js and anim-controller.js are not part of the sources).  A layer has
  the name and the state names of its graph layer, and a table of the animation tracks
  assigned to its states; \<open>assignAnimation\<close> and \<open>removeNodeAnimations\<close> set and clear an
  entry of the table.
\<close>

record anim_layer =
  layer_name :: string
  layer_states :: "string list"
  layer_tracks :: "string \<rightharpoonup> nat"

definition layer_assignAnimation :: "string \<Rightarrow> nat \<Rightarrow> anim_layer \<Rightarrow> anim_layer" where
  "layer_assignAnimation nodeName track l = l\<lparr>layer_tracks := (layer_tracks l)(nodeName \<mapsto> track)\<rparr>"

definition layer_removeNodeAnimations :: "string \<Rightarrow> anim_layer \<Rightarrow> anim_layer" where
  "layer_removeNodeAnimations nodeName l = l\<lparr>layer_tracks := (layer_tracks l)(nodeName := None)\<rparr>"

text \<open>The diagnostics the component writes with \<open>Debug.log\<close> and \<open>Debug.error\<close>.\<close>

datatype diag =
  Log_cannot_get string param_type
| Log_cannot_set string param_type
| Error_non_integer
| Error_remove_no_layer
| Error_assign_no_layer

record anim_asset_entry =
  asset :: "nat option"

text \<open>
  An asset of the registry: its resource, null until it is loaded.  A state graph asset
  resolves to a graph, an animation asset to a track.
\<close>

datatype resource = GraphResource state_graph | TrackResource nat

type_synonym registry = "nat \<rightharpoonup> resource option"

text \<open>
  The fields of \<open>AnimComponent\<close> (the root bone and the animated targets, which none of
  the modelled methods reads, are left out), with the diagnostics written so far and the
  subscriptions the component holds on assets: its \<open>change\<close> handler, the one-shot
  \<open>load\<close> callbacks for a state graph and for animations, and the loads it requested.
  \<open>consumedTriggers\<close> is a \<open>Set\<close>: it keeps insertion order and has no duplicates.
\<close>

record anim_component =
  stateGraphAsset :: "nat option"
  animationAssets :: "string \<rightharpoonup> anim_asset_entry"
  speed :: jsnum
  activate :: bool
  playing :: bool
  stateGraph :: "state_graph option"
  layers :: "anim_layer list"
  layerIndices :: "string \<rightharpoonup> nat"
  parameters :: "string \<rightharpoonup> parameter"
  consumedTriggers :: "string list"
  debug_log :: "diag list"
  change_subscriptions :: "nat list"
  graph_load_callbacks :: "nat list"
  anim_load_callbacks :: "(nat \<times> string \<times> string) list"
  load_requests :: "nat list"

definition new_anim_component :: anim_component where
  "new_anim_component =
     \<lparr>stateGraphAsset = None, animationAssets = Map.empty, speed = Fin 1, activate = True,
      playing = False, stateGraph = None, layers = [], layerIndices = Map.empty,
      parameters = Map.empty, consumedTriggers = [], debug_log = [],
      change_subscriptions = [], graph_load_callbacks = [], anim_load_callbacks = [],
      load_requests = []\<rparr>"

definition set_add :: "'a \<Rightarrow> 'a list \<Rightarrow> 'a list" where
  "set_add x xs = (if x \<in> set xs then xs else xs @ [x])"

definition debug :: "diag \<Rightarrow> anim_component \<Rightarrow> anim_component" where
  "debug d c = c\<lparr>debug_log := debug_log c @ [d]\<rparr>"

text \<open>\<open>_addLayer\<close>: the new layer goes to the end and its name is mapped to its index.\<close>

definition addLayer_internal :: "layer_desc \<Rightarrow> anim_component \<Rightarrow> anim_component" where
  "addLayer_internal ld c =
     (let layerIndex = length (layers c)
      in c\<lparr>layers := layers c @
               [\<lparr>layer_name = ld_name ld, layer_states = map st_name (ld_states ld),
                 layer_tracks = Map.empty\<rparr>],
           layerIndices := (layerIndices c)(ld_name ld \<mapsto> layerIndex)\<rparr>)"

text \<open>\<open>this._layers[this._layerIndices[name]] || null\<close>, with the index for later writes.\<close>

definition findAnimationLayer :: "string \<Rightarrow> anim_component \<Rightarrow> (nat \<times> anim_layer) option" where
  "findAnimationLayer name c =
     (case layerIndices c name of
        None \<Rightarrow> None
      | Some i \<Rightarrow> if i < length (layers c) then Some (i, layers c ! i) else None)"

definition baseLayer :: "anim_component \<Rightarrow> (nat \<times> anim_layer) option" where
  "baseLayer c = (if length (layers c) > 0 then Some (0, layers c ! 0) else None)"

definition removeNodeAnimations :: "string \<Rightarrow> string \<Rightarrow> anim_component \<Rightarrow> anim_component" where
  "removeNodeAnimations nodeName layerName c =
     (case (if layerName \<noteq> [] then findAnimationLayer layerName c else baseLayer c) of
        None \<Rightarrow> debug Error_remove_no_layer c
      | Some (i, l) \<Rightarrow> c\<lparr>layers := (layers c)[i := layer_removeNodeAnimations nodeName l]\<rparr>)"

text \<open>\<open>onAnimationAssetLoaded\<close>: a missing layer is a null dereference.\<close>

definition onAnimationAssetLoaded ::
  "string \<Rightarrow> string \<Rightarrow> nat \<Rightarrow> anim_component \<Rightarrow> js_error + anim_component" where
  "onAnimationAssetLoaded layerName stateName track c =
     (case findAnimationLayer layerName c of
        None \<Rightarrow> Inl TypeError
      | Some (i, l) \<Rightarrow> Inr (c\<lparr>layers := (layers c)[i := layer_assignAnimation stateName track l]\<rparr>))"

text \<open>
  The body of the inner loop of \<open>loadAnimationAssets\<close> for one state of one layer.
  \<open>control_states\<close> stands for the constant \<open>ANIM_CONTROL_STATES\<close> (constants.js is not
  part of the sources).  An asset id is tested for truthiness, so the id 0 counts as no
  asset.
\<close>

definition loadAnimationAsset_step ::
  "string list \<Rightarrow> registry \<Rightarrow> string \<Rightarrow> string \<Rightarrow> anim_component \<Rightarrow> js_error + anim_component" where
  "loadAnimationAsset_step control_states assets layerName stateName c =
     (if stateName \<in> set control_states then Inr c
      else
        (case (case animationAssets c (layerName @ '':'' @ stateName) of
                 None \<Rightarrow> None
               | Some entry \<Rightarrow> (case asset entry of None \<Rightarrow> None
                                | Some assetId \<Rightarrow> if assetId = 0 then None else Some assetId)) of
           None \<Rightarrow> Inr (removeNodeAnimations stateName layerName c)
         | Some assetId \<Rightarrow>
             (case assets assetId of
                None \<Rightarrow> Inr c
              | Some (Some (TrackResource track)) \<Rightarrow> onAnimationAssetLoaded layerName stateName track c
              | Some (Some (GraphResource g)) \<Rightarrow> Inl IllTyped
              | Some None \<Rightarrow>
                  Inr (c\<lparr>anim_load_callbacks := anim_load_callbacks c @ [(assetId, layerName, stateName)],
                         load_requests := load_requests c @ [assetId]\<rparr>))))"

fun loadAnimationAssets_states ::
  "string list \<Rightarrow> registry \<Rightarrow> string \<Rightarrow> string list \<Rightarrow> anim_component \<Rightarrow> js_error + anim_component" where
  "loadAnimationAssets_states control_states assets layerName [] c = Inr c"
| "loadAnimationAssets_states control_states assets layerName (stateName # rest) c =
     (case loadAnimationAsset_step control_states assets layerName stateName c of
        Inl e \<Rightarrow> Inl e
      | Inr c' \<Rightarrow> loadAnimationAssets_states control_states assets layerName rest c')"

text \<open>The outer loop, over the layer indices; layer \<open>i\<close> is read when its turn comes.\<close>

fun loadAnimationAssets_layers ::
  "string list \<Rightarrow> registry \<Rightarrow> nat list \<Rightarrow> anim_component \<Rightarrow> js_error + anim_component" where
  "loadAnimationAssets_layers control_states assets [] c = Inr c"
| "loadAnimationAssets_layers control_states assets (i # rest) c =
     (case loadAnimationAssets_states control_states assets
             (layer_name (layers c ! i)) (layer_states (layers c ! i)) c of
        Inl e \<Rightarrow> Inl e
      | Inr c' \<Rightarrow> loadAnimationAssets_layers control_states assets rest c')"

definition loadAnimationAssets :: "string list \<Rightarrow> registry \<Rightarrow> anim_component \<Rightarrow> js_error + anim_component" where
  "loadAnimationAssets control_states assets c =
     loadAnimationAssets_layers control_states assets [0..<length (layers c)] c"

text \<open>\<open>setupAnimationAssets\<close>: a manifest entry for every state that is not a control state.\<close>

fun setupAnimationAssets_states :: "string list \<Rightarrow> string \<Rightarrow> string list \<Rightarrow> anim_component \<Rightarrow> anim_component" where
  "setupAnimationAssets_states control_states layerName [] c = c"
| "setupAnimationAssets_states control_states layerName (stateName # rest) c =
     setupAnimationAssets_states control_states layerName rest
       (if stateName \<notin> set control_states then
          (let stateKey = layerName @ '':'' @ stateName
           in if animationAssets c stateKey = None
              then c\<lparr>animationAssets := (animationAssets c)(stateKey \<mapsto> \<lparr>asset = None\<rparr>)\<rparr>
              else c)
        else c)"

fun setupAnimationAssets_layers :: "string list \<Rightarrow> anim_layer list \<Rightarrow> anim_component \<Rightarrow> anim_component" where
  "setupAnimationAssets_layers control_states [] c = c"
| "setupAnimationAssets_layers control_states (layer # rest) c =
     setupAnimationAssets_layers control_states rest
       (setupAnimationAssets_states control_states (layer_name layer) (layer_states layer) c)"

definition setupAnimationAssets :: "string list \<Rightarrow> registry \<Rightarrow> anim_component \<Rightarrow> js_error + anim_component" where
  "setupAnimationAssets control_states assets c =
     loadAnimationAssets control_states assets (setupAnimationAssets_layers control_states (layers c) c)"

text \<open>\<open>loadStateGraph\<close>: parameters from the graph, fresh layers, then the manifest.\<close>

fun load_parameters :: "(string \<times> parameter) list \<Rightarrow> (string \<times> parameter) list \<Rightarrow> (string \<rightharpoonup> parameter) \<Rightarrow> (string \<rightharpoonup> parameter)" where
  "load_parameters graph_params [] ps = ps"
| "load_parameters graph_params ((paramKey, p) # rest) ps =
     load_parameters graph_params rest
       (case map_of graph_params paramKey of
          None \<Rightarrow> ps
        | Some gp \<Rightarrow> ps(paramKey \<mapsto> \<lparr>ptype = ptype gp, pvalue = pvalue gp\<rparr>))"

definition loadStateGraph :: "string list \<Rightarrow> registry \<Rightarrow> state_graph \<Rightarrow> anim_component \<Rightarrow> js_error + anim_component" where
  "loadStateGraph control_states assets g c =
     (let c1 = c\<lparr>stateGraph := Some g,
                 parameters := load_parameters (sg_parameters g) (sg_parameters g) Map.empty,
                 layers := []\<rparr>;
          c2 = fold addLayer_internal (sg_layers g) c1
      in setupAnimationAssets control_states assets c2)"

definition removeStateGraph :: "anim_component \<Rightarrow> anim_component" where
  "removeStateGraph c =
     c\<lparr>stateGraph := None, stateGraphAsset := None, animationAssets := Map.empty,
       layers := [], layerIndices := Map.empty, parameters := Map.empty, playing := False\<rparr>"

text \<open>
  The value given to the \<open>stateGraphAsset\<close> setter: null, an asset id, or an \<open>Asset\<close>
  instance (its id and its resource).
\<close>

datatype asset_value = AssetNull | AssetId nat | AssetInstance nat "resource option"

definition set_stateGraphAsset ::
  "string list \<Rightarrow> asset_value \<Rightarrow> registry \<times> anim_component \<Rightarrow> js_error + registry \<times> anim_component" where
  "set_stateGraphAsset control_states v w =
     (case w of (assets, c) \<Rightarrow>
       (case v of
          AssetNull \<Rightarrow> Inr (assets, removeStateGraph c)
        | _ \<Rightarrow>
          (case (case stateGraphAsset c of
                   None \<Rightarrow> Inr c
                 | Some prev \<Rightarrow>
                     if prev = 0 then Inr c
                     else (case assets prev of
                             None \<Rightarrow> Inl TypeError
                           | Some r \<Rightarrow> Inr (c\<lparr>change_subscriptions := removeAll prev (change_subscriptions c)\<rparr>))) of
             Inl e \<Rightarrow> Inl e
           | Inr c1 \<Rightarrow>
              (let assets1 = (case v of
                                AssetInstance i r \<Rightarrow> if assets i = None then assets(i \<mapsto> r) else assets
                              | _ \<Rightarrow> assets);
                   ident = (case v of AssetInstance i r \<Rightarrow> i | AssetId i \<Rightarrow> i | AssetNull \<Rightarrow> 0)
               in (case assets1 ident of
                     None \<Rightarrow> Inr (assets1, c1)
                   | Some res \<Rightarrow>
                       if stateGraphAsset c1 = Some ident then Inr (assets1, c1)
                       else (case res of
                               Some (GraphResource g) \<Rightarrow>
                                 (case loadStateGraph control_states assets1 g c1 of
                                    Inl e \<Rightarrow> Inl e
                                  | Inr c2 \<Rightarrow>
                                      Inr (assets1,
                                           c2\<lparr>change_subscriptions := change_subscriptions c2 @ [ident],
                                              stateGraphAsset := Some ident\<rparr>))
                             | Some (TrackResource t) \<Rightarrow> Inl IllTyped
                             | None \<Rightarrow>
                                 Inr (assets1,
                                      c1\<lparr>graph_load_callbacks := graph_load_callbacks c1 @ [ident],
                                         change_subscriptions := change_subscriptions c1 @ [ident],
                                         load_requests := load_requests c1 @ [ident],
                                         stateGraphAsset := Some ident\<rparr>)))))))"

subsection \<open>Typed parameter access\<close>

definition getParameterValue :: "string \<Rightarrow> param_type \<Rightarrow> anim_component \<Rightarrow> jsval \<times> anim_component" where
  "getParameterValue name ty c =
     (case parameters c name of
        None \<Rightarrow> (Undefined, debug (Log_cannot_get name ty) c)
      | Some param \<Rightarrow>
          if ptype param = ty then (pvalue param, c)
          else (Undefined, debug (Log_cannot_get name ty) c))"

definition setParameterValue :: "string \<Rightarrow> param_type \<Rightarrow> jsval \<Rightarrow> anim_component \<Rightarrow> anim_component" where
  "setParameterValue name ty v c =
     (case parameters c name of
        None \<Rightarrow> debug (Log_cannot_set name ty) c
      | Some param \<Rightarrow>
          if ptype param = ty then c\<lparr>parameters := (parameters c)(name \<mapsto> param\<lparr>pvalue := v\<rparr>)\<rparr>
          else debug (Log_cannot_set name ty) c)"

definition getFloat :: "string \<Rightarrow> anim_component \<Rightarrow> jsval \<times> anim_component" where
  "getFloat name c = getParameterValue name ANIM_PARAMETER_FLOAT c"

definition setFloat :: "string \<Rightarrow> jsval \<Rightarrow> anim_component \<Rightarrow> anim_component" where
  "setFloat name v c = setParameterValue name ANIM_PARAMETER_FLOAT v c"

definition getInteger :: "string \<Rightarrow> anim_component \<Rightarrow> jsval \<times> anim_component" where
  "getInteger name c = getParameterValue name ANIM_PARAMETER_INTEGER c"

definition setInteger :: "string \<Rightarrow> jsval \<Rightarrow> anim_component \<Rightarrow> anim_component" where
  "setInteger name v c =
     (if is_integer_number v then setParameterValue name ANIM_PARAMETER_INTEGER v c
      else debug Error_non_integer c)"

definition getBoolean :: "string \<Rightarrow> anim_component \<Rightarrow> jsval \<times> anim_component" where
  "getBoolean name c = getParameterValue name ANIM_PARAMETER_BOOLEAN c"

definition setBoolean :: "string \<Rightarrow> jsval \<Rightarrow> anim_component \<Rightarrow> anim_component" where
  "setBoolean name v c = setParameterValue name ANIM_PARAMETER_BOOLEAN (Bool (truthy v)) c"

definition getTrigger :: "string \<Rightarrow> anim_component \<Rightarrow> jsval \<times> anim_component" where
  "getTrigger name c = getParameterValue name ANIM_PARAMETER_TRIGGER c"

definition setTrigger :: "string \<Rightarrow> bool \<Rightarrow> anim_component \<Rightarrow> anim_component" where
  "setTrigger name singleFrame c =
     (let c1 = setParameterValue name ANIM_PARAMETER_TRIGGER (Bool True) c
      in if singleFrame then c1\<lparr>consumedTriggers := set_add name (consumedTriggers c1)\<rparr> else c1)"

definition resetTrigger :: "string \<Rightarrow> anim_component \<Rightarrow> anim_component" where
  "resetTrigger name c = setParameterValue name ANIM_PARAMETER_TRIGGER (Bool False) c"

subsection \<open>The frame update\<close>

text \<open>
  Modelled from the spec: \<open>AnimComponentLayer.update\<close> (not part of the sources).  The
  controller of a layer was given the component's parameter map and its set of consumed
  triggers: updating a layer by a time step advances the layer, reads the parameters and
  adds to the set the names of the triggers its transitions consumed.  The update of a
  layer is a parameter of the model: from the layer, the time step, the parameters and
  the set it gives the advanced layer and the names it adds.
\<close>

type_synonym layer_update =
  "anim_layer \<Rightarrow> jsnum \<Rightarrow> (string \<rightharpoonup> parameter) \<Rightarrow> string list \<Rightarrow> anim_layer \<times> string list"

fun update_layers ::
  "layer_update \<Rightarrow> jsnum \<Rightarrow> (string \<rightharpoonup> parameter) \<Rightarrow> anim_layer list \<Rightarrow> string list
     \<Rightarrow> anim_layer list \<times> string list" where
  "update_layers lu d ps [] consumed = ([], consumed)"
| "update_layers lu d ps (l # ls) consumed =
     (case lu l d ps consumed of
        (l', added) \<Rightarrow>
          (case update_layers lu d ps ls (fold set_add added consumed) of
             (ls', consumed') \<Rightarrow> (l' # ls', consumed')))"

text \<open>
  \<open>this.parameters[trigger].value = false\<close> for every consumed trigger, in insertion
  order; a name that is no parameter is a write to a member of undefined.
\<close>

fun reset_consumed :: "string list \<Rightarrow> (string \<rightharpoonup> parameter) \<Rightarrow> js_error + (string \<rightharpoonup> parameter)" where
  "reset_consumed [] ps = Inr ps"
| "reset_consumed (trigger # rest) ps =
     (case ps trigger of
        None \<Rightarrow> Inl TypeError
      | Some param \<Rightarrow> reset_consumed rest (ps(trigger \<mapsto> param\<lparr>pvalue := Bool False\<rparr>)))"

definition update :: "layer_update \<Rightarrow> jsnum \<Rightarrow> anim_component \<Rightarrow> js_error + anim_component" where
  "update lu dt c =
     (case update_layers lu (jmul dt (speed c)) (parameters c) (layers c) (consumedTriggers c) of
        (ls, consumed) \<Rightarrow>
          (case reset_consumed consumed (parameters c) of
             Inl e \<Rightarrow> Inl e
           | Inr ps \<Rightarrow> Inr (c\<lparr>layers := ls, parameters := ps, consumedTriggers := []\<rparr>)))"

section \<open>Model component: the model property\<close>

text \<open>
  Models are shared objects: the same \<open>Model\<close> instance can be handed to several
  components, and the \<open>_immutable\<close> flag lives on the instance.  The heap maps a
  reference to the instance it denotes.
\<close>

record mesh_instance =
  castShadow :: bool
  receiveShadow :: bool
  isStatic :: bool
  customAabb :: "nat option"

record model_obj =
  immutable :: bool
  meshInstances :: "mesh_instance list"
  owner_entity :: "nat option"
  destroyed :: bool

text \<open>
  Calls into collaborators that are not part of the sources (scene layers, the entity's
  child list, the animation components, the material mapping) are recorded as effects,
  and so is the diagnostic of \<open>Debug.error\<close>.
\<close>

datatype effect =
  RemoveMeshInstances nat nat
| AddMeshInstances nat nat
| RemoveChild nat
| AddChild nat
| AnimationSetModel nat
| AnimRebind
| AnimResetStateGraph
| SetMapping
| UnsetMaterialEvents
| DebugError string

record model_component =
  mc_type :: string
  mc_model :: "nat option"
  mc_castShadows :: bool
  mc_receiveShadows :: bool
  mc_isStatic :: bool
  mc_lightmapped :: bool
  mc_customAabb :: "nat option"
  mc_layers :: "nat list"
  mc_clonedModel :: bool
  mc_enabled :: bool

text \<open>
  The world of one component: the heap of models, the component, its entity (identity,
  enabled flag, whether it has an \<open>animation\<close> component, and the \<open>playing\<close> flag of its
  \<open>anim\<close> component if it has one), the ids of the layers of the scene, and the effects
  so far.
\<close>

record model_world =
  heap :: "nat \<rightharpoonup> model_obj"
  mcomp :: model_component
  entity_id :: nat
  entity_is_enabled :: bool
  entity_has_animation :: bool
  entity_anim_playing :: "bool option"
  scene_layer_ids :: "nat list"
  effects :: "effect list"

definition effect :: "effect \<Rightarrow> model_world \<Rightarrow> model_world" where
  "effect e w = w\<lparr>effects := effects w @ [e]\<rparr>"

definition removeModelFromLayers :: "nat \<Rightarrow> model_world \<Rightarrow> model_world" where
  "removeModelFromLayers m w =
     fold (\<lambda>layer w'. if layer \<in> set (scene_layer_ids w') then effect (RemoveMeshInstances layer m) w' else w')
       (mc_layers (mcomp w)) w"

definition addModelToLayers :: "nat \<Rightarrow> model_world \<Rightarrow> model_world" where
  "addModelToLayers m w =
     fold (\<lambda>layer w'. if layer \<in> set (scene_layer_ids w') then effect (AddMeshInstances layer m) w' else w')
       (mc_layers (mcomp w)) w"

definition update_model :: "nat \<Rightarrow> (model_obj \<Rightarrow> model_obj) \<Rightarrow> model_world \<Rightarrow> model_world" where
  "update_model m f w =
     (case heap w m of None \<Rightarrow> w | Some mo \<Rightarrow> w\<lparr>heap := (heap w)(m \<mapsto> f mo)\<rparr>)"

text \<open>The first half of the setter body: letting go of the model held so far.\<close>

definition release_model :: "model_world \<Rightarrow> model_world" where
  "release_model w =
     (case mc_model (mcomp w) of
        None \<Rightarrow> w
      | Some old \<Rightarrow>
          (let w1 = update_model old (\<lambda>mo. mo\<lparr>immutable := False\<rparr>) w;
               w2 = removeModelFromLayers old w1;
               w3 = effect (RemoveChild old) w2;
               w4 = update_model old (\<lambda>mo. mo\<lparr>owner_entity := None\<rparr>) w3
           in if mc_clonedModel (mcomp w4)
              then (update_model old (\<lambda>mo. mo\<lparr>destroyed := True\<rparr>) w4)
                     \<lparr>mcomp := (mcomp w4)\<lparr>mc_clonedModel := False\<rparr>\<rparr>
              else w4))"

text \<open>
  The second half: taking the new model.  \<open>this.lightmapped = this._lightmapped\<close> goes
  through the \<open>lightmapped\<close> setter, which returns at once for an unchanged value.
\<close>

definition adopt_model :: "nat \<Rightarrow> model_world \<Rightarrow> model_world" where
  "adopt_model m w =
     (let c = mcomp w;
          w1 = update_model m (\<lambda>mo. mo\<lparr>immutable := True,
                 meshInstances := map (\<lambda>mi. mi\<lparr>castShadow := mc_castShadows c,
                                                receiveShadow := mc_receiveShadows c,
                                                isStatic := mc_isStatic c,
                                                customAabb := mc_customAabb c\<rparr>) (meshInstances mo)\<rparr>) w;
          w2 = effect (AddChild m) w1;
          w3 = (if mc_enabled c \<and> entity_is_enabled w2 then addModelToLayers m w2 else w2);
          w4 = update_model m (\<lambda>mo. mo\<lparr>owner_entity := Some (entity_id w3)\<rparr>) w3;
          w5 = (if entity_has_animation w4 then effect (AnimationSetModel m) w4 else w4);
          w6 = (case entity_anim_playing w5 of
                  None \<Rightarrow> w5
                | Some pl \<Rightarrow> if pl then effect AnimRebind w5 else effect AnimResetStateGraph w5)
      in if mc_type c = ''asset'' then effect SetMapping w6 else effect UnsetMaterialEvents w6)"

text \<open>
  The setter of \<open>model\<close>.  \<open>value && value._immutable\<close>: a reference that the heap does
  not know has no flag.
\<close>

definition set_model :: "nat option \<Rightarrow> model_world \<Rightarrow> model_world" where
  "set_model v w =
     (if mc_model (mcomp w) = v then w
      else if (case v of None \<Rightarrow> False
               | Some m \<Rightarrow> (case heap w m of None \<Rightarrow> False | Some mo \<Rightarrow> immutable mo))
      then effect (DebugError ''Invalid attempt to assign a model to multiple ModelComponents'') w
      else
        (let w1 = release_model w;
             w2 = w1\<lparr>mcomp := (mcomp w1)\<lparr>mc_model := v\<rparr>\<rparr>
         in (case v of None \<Rightarrow> w2 | Some m \<Rightarrow> adopt_model m w2)))"

section \<open>Layout calculator\<close>

text \<open>A size property of an element or of a layout child: a number, null, or not set.\<close>

datatype propval = PUndefined | PNull | PNum jsnum

text \<open>The conversion to a number that \<open>Math.max\<close>, \<open>Math.min\<close> and arithmetic apply.\<close>

fun to_number :: "propval \<Rightarrow> jsnum" where
  "to_number PUndefined = NaN"
| "to_number PNull = Fin 0"
| "to_number (PNum a) = a"

datatype prop_name =
  MinWidth | MinHeight | MaxWidth | MaxHeight | Width | Height
| FitWidthProportion | FitHeightProportion

record layout_child =
  lc_enabled :: bool
  lc_excludeFromLayout :: bool
  lc_props :: "prop_name \<Rightarrow> propval"

record element =
  el_id :: nat
  layoutchild :: "layout_child option"
  el_props :: "prop_name \<Rightarrow> propval"

fun PROPERTY_DEFAULTS :: "prop_name \<Rightarrow> propval" where
  "PROPERTY_DEFAULTS MinWidth = PNum (Fin 0)"
| "PROPERTY_DEFAULTS MinHeight = PNum (Fin 0)"
| "PROPERTY_DEFAULTS MaxWidth = PNum PosInf"
| "PROPERTY_DEFAULTS MaxHeight = PNum PosInf"
| "PROPERTY_DEFAULTS Width = PNull"
| "PROPERTY_DEFAULTS Height = PNull"
| "PROPERTY_DEFAULTS FitWidthProportion = PNum (Fin 0)"
| "PROPERTY_DEFAULTS FitHeightProportion = PNum (Fin 0)"

datatype orientation = ORIENTATION_HORIZONTAL | ORIENTATION_VERTICAL

text \<open>
  The four fitting modes.  \<open>determineFittingAction\<close> throws on any other value; the
  type has none.
\<close>

datatype fitting = FITTING_NONE | FITTING_STRETCH | FITTING_SHRINK | FITTING_BOTH

datatype fitting_action = NONE | APPLY_STRETCHING | APPLY_SHRINKING

text \<open>
  \<open>Vec2\<close> and \<open>Vec4\<close> (the math classes are not part of the sources): the
  coordinates, which the calculator reads and writes as numbers.
\<close>

record vec2 =
  vx :: jsnum
  vy :: jsnum

record vec4 =
  px :: jsnum
  py :: jsnum
  pz :: jsnum
  pw :: jsnum

record layout_options =
  orientation :: orientation
  wrap :: bool
  widthFitting :: fitting
  heightFitting :: fitting
  spacing :: vec2
  containerSize :: vec2
  padding :: vec4
  alignment :: vec2
  reverseX :: bool
  reverseY :: bool

text \<open>The size record \<open>getElementSizeProperties\<close> builds for an element.\<close>

record size_props =
  minWidth :: jsnum
  minHeight :: jsnum
  maxWidth :: jsnum
  maxHeight :: jsnum
  width :: jsnum
  height :: jsnum
  fitWidthProportion :: propval
  fitHeightProportion :: propval

text \<open>
  \<open>AXIS_MAPPINGS\<close>: an axis is named by the orientation whose primary axis it is, and
  gives the members of a size record, of the options and of the available space to use.
\<close>

definition OPPOSITE_ORIENTATION :: "orientation \<Rightarrow> orientation" where
  "OPPOSITE_ORIENTATION ori =
     (case ori of ORIENTATION_HORIZONTAL \<Rightarrow> ORIENTATION_VERTICAL
      | ORIENTATION_VERTICAL \<Rightarrow> ORIENTATION_HORIZONTAL)"

definition size_of :: "orientation \<Rightarrow> size_props \<Rightarrow> jsnum" where
  "size_of ax s = (case ax of ORIENTATION_HORIZONTAL \<Rightarrow> width s | ORIENTATION_VERTICAL \<Rightarrow> height s)"

definition minSize_of :: "orientation \<Rightarrow> size_props \<Rightarrow> jsnum" where
  "minSize_of ax s = (case ax of ORIENTATION_HORIZONTAL \<Rightarrow> minWidth s | ORIENTATION_VERTICAL \<Rightarrow> minHeight s)"

definition maxSize_of :: "orientation \<Rightarrow> size_props \<Rightarrow> jsnum" where
  "maxSize_of ax s = (case ax of ORIENTATION_HORIZONTAL \<Rightarrow> maxWidth s | ORIENTATION_VERTICAL \<Rightarrow> maxHeight s)"

definition fittingProportion_of :: "orientation \<Rightarrow> size_props \<Rightarrow> jsnum" where
  "fittingProportion_of ax s =
     to_number (case ax of ORIENTATION_HORIZONTAL \<Rightarrow> fitWidthProportion s
                | ORIENTATION_VERTICAL \<Rightarrow> fitHeightProportion s)"

definition set_size :: "orientation \<Rightarrow> jsnum \<Rightarrow> size_props \<Rightarrow> size_props" where
  "set_size ax v s =
     (case ax of ORIENTATION_HORIZONTAL \<Rightarrow> s\<lparr>width := v\<rparr> | ORIENTATION_VERTICAL \<Rightarrow> s\<lparr>height := v\<rparr>)"

definition fitting_of :: "orientation \<Rightarrow> layout_options \<Rightarrow> fitting" where
  "fitting_of ax opts =
     (case ax of ORIENTATION_HORIZONTAL \<Rightarrow> widthFitting opts | ORIENTATION_VERTICAL \<Rightarrow> heightFitting opts)"

definition axis_of :: "orientation \<Rightarrow> vec2 \<Rightarrow> jsnum" where
  "axis_of ax v = (case ax of ORIENTATION_HORIZONTAL \<Rightarrow> vx v | ORIENTATION_VERTICAL \<Rightarrow> vy v)"

text \<open>The space left in the container by the padding, as \<open>calculateAll\<close> sets it.\<close>

definition availableSpace :: "layout_options \<Rightarrow> vec2" where
  "availableSpace opts =
     \<lparr>vx = jsub (jsub (vx (containerSize opts)) (px (padding opts))) (pz (padding opts)),
      vy = jsub (jsub (vy (containerSize opts)) (py (padding opts))) (pw (padding opts))\<rparr>"

definition shouldIncludeInLayout :: "element \<Rightarrow> bool" where
  "shouldIncludeInLayout e =
     (case layoutchild e of
        None \<Rightarrow> True
      | Some lc \<Rightarrow> \<not> lc_enabled lc \<or> \<not> lc_excludeFromLayout lc)"

subsection \<open>Reading the size properties\<close>

definition getProperty :: "element \<Rightarrow> prop_name \<Rightarrow> propval" where
  "getProperty e propertyName =
     (if (case layoutchild e of
            None \<Rightarrow> False
          | Some lc \<Rightarrow> lc_enabled lc \<and> lc_props lc propertyName \<noteq> PUndefined
                        \<and> lc_props lc propertyName \<noteq> PNull)
      then lc_props (the (layoutchild e)) propertyName
      else if el_props e propertyName \<noteq> PUndefined then el_props e propertyName
      else PROPERTY_DEFAULTS propertyName)"

definition clamp :: "jsnum \<Rightarrow> jsnum \<Rightarrow> jsnum \<Rightarrow> jsnum" where
  "clamp v lo hi = jmin (jmax v lo) hi"

text \<open>The body of the loop of \<open>getElementSizeProperties\<close>, for one element.\<close>

definition elementSizeProperties :: "element \<Rightarrow> size_props" where
  "elementSizeProperties e =
     (let minW = jmax (to_number (getProperty e MinWidth)) (Fin 0);
          minH = jmax (to_number (getProperty e MinHeight)) (Fin 0);
          maxW = jmax (to_number (getProperty e MaxWidth)) minW;
          maxH = jmax (to_number (getProperty e MaxHeight)) minH;
          w = clamp (to_number (getProperty e Width)) minW maxW;
          h = clamp (to_number (getProperty e Height)) minH maxH
      in \<lparr>minWidth = minW, minHeight = minH, maxWidth = maxW, maxHeight = maxH,
          width = w, height = h,
          fitWidthProportion = getProperty e FitWidthProportion,
          fitHeightProportion = getProperty e FitHeightProportion\<rparr>)"

definition getElementSizeProperties :: "element list \<Rightarrow> size_props list" where
  "getElementSizeProperties elements = map elementSizeProperties elements"

subsection \<open>Splitting into lines\<close>

text \<open>
  The loop of \<open>splitLines\<close>.  The array \<open>lines\<close> is kept as the lines before the last
  one and the last one, to which elements are pushed; \<open>i !== allElements.length - 1\<close>
  says that elements remain after the current one.
\<close>

fun split_loop ::
  "bool \<Rightarrow> jsnum \<Rightarrow> jsnum \<Rightarrow> ('e \<Rightarrow> jsnum) \<Rightarrow> 'e list \<Rightarrow> 'e list list \<Rightarrow> 'e list \<Rightarrow> jsnum
     \<Rightarrow> 'e list list" where
  "split_loop allowOverrun gap avail sz [] finished cur runningSize = finished @ [cur]"
| "split_loop allowOverrun gap avail sz (e # rest) finished cur runningSize =
     (let r1 = (if cur \<noteq> [] then jadd runningSize gap else runningSize);
          idealElementSize = sz e;
          r2 = jadd r1 idealElementSize;
          before = (\<not> allowOverrun \<and> jgt r2 avail \<and> cur \<noteq> []);
          r3 = (if before then idealElementSize else r2);
          finished3 = (if before then finished @ [cur] else finished);
          cur3 = (if before then [] else cur) @ [e]
      in if allowOverrun \<and> jgt r3 avail \<and> rest \<noteq> []
         then split_loop allowOverrun gap avail sz rest (finished3 @ [cur3]) [] (Fin 0)
         else split_loop allowOverrun gap avail sz rest finished3 cur3 r3)"

definition splitLines :: "layout_options \<Rightarrow> orientation \<Rightarrow> element list \<Rightarrow> element list list" where
  "splitLines opts a allElements =
     (if \<not> wrap opts then [allElements]
      else split_loop (fitting_of a opts = FITTING_SHRINK) (axis_of a (spacing opts))
             (axis_of a (availableSpace opts)) (\<lambda>e. size_of a (elementSizeProperties e))
             allElements [] [] (Fin 0))"

text \<open>
  The running size the loop has reached when a line holds the given elements: their
  ideal sizes with the spacing between them, added from left to right.
\<close>

definition line_size :: "jsnum \<Rightarrow> ('e \<Rightarrow> jsnum) \<Rightarrow> 'e list \<Rightarrow> jsnum" where
  "line_size gap sz line =
     (case line of [] \<Rightarrow> Fin 0 | e # es \<Rightarrow> foldl (\<lambda>r e'. jadd (jadd r gap) (sz e')) (sz e) es)"

subsection \<open>Fitting the sizes of a line\<close>

definition determineFittingAction :: "fitting \<Rightarrow> jsnum \<Rightarrow> jsnum \<Rightarrow> fitting_action" where
  "determineFittingAction fittingMode currentSize availableSize =
     (case fittingMode of
        FITTING_NONE \<Rightarrow> NONE
      | FITTING_STRETCH \<Rightarrow> if jlt currentSize availableSize then APPLY_STRETCHING else NONE
      | FITTING_SHRINK \<Rightarrow> if jge currentSize availableSize then APPLY_SHRINKING else NONE
      | FITTING_BOTH \<Rightarrow>
          if jlt currentSize availableSize then APPLY_STRETCHING
          else if jge currentSize availableSize then APPLY_SHRINKING
          else NONE)"

definition sumValues :: "('a \<Rightarrow> jsnum) \<Rightarrow> 'a list \<Rightarrow> jsnum" where
  "sumValues f items = foldl (\<lambda>accumulator current. jadd accumulator (f current)) (Fin 0) items"

definition calculateTotalSpace :: "layout_options \<Rightarrow> size_props list \<Rightarrow> orientation \<Rightarrow> jsnum" where
  "calculateTotalSpace opts sizes ax =
     jadd (sumValues (size_of ax) sizes)
          (jmul (Fin (of_nat (length sizes) - 1)) (axis_of ax (spacing opts)))"

definition getNormalizedValues :: "('a \<Rightarrow> jsnum) \<Rightarrow> 'a list \<Rightarrow> jsnum list" where
  "getNormalizedValues f items =
     (let total = sumValues f items;
          numItems = length items
      in if total = Fin 0 then replicate numItems (jdiv (Fin 1) (Fin (of_nat numItems)))
         else map (\<lambda>item. jdiv (f item) total) items)"

definition invertNormalizedValues :: "jsnum list \<Rightarrow> jsnum list" where
  "invertNormalizedValues vals =
     (if length vals = 1 then [Fin 1]
      else map (\<lambda>v. jdiv (jsub (Fin 1) v) (Fin (of_nat (length vals) - 1))) vals)"

text \<open>
  \<open>Array.prototype.sort\<close> with a comparator, which is stable: an element moves behind
  another one only if the comparator gives a positive number for the pair.
\<close>

fun insert_by :: "('a \<Rightarrow> 'a \<Rightarrow> jsnum) \<Rightarrow> 'a \<Rightarrow> 'a list \<Rightarrow> 'a list" where
  "insert_by cmp x [] = [x]"
| "insert_by cmp x (y # ys) =
     (if jgt (cmp x y) (Fin 0) then y # insert_by cmp x ys else x # y # ys)"

definition sort_by :: "('a \<Rightarrow> 'a \<Rightarrow> jsnum) \<Rightarrow> 'a list \<Rightarrow> 'a list" where
  "sort_by cmp xs = foldr (insert_by cmp) xs []"

text \<open>
  \<open>getTraversalOrder\<close>: the indices of the items, sorted by a member of the items.
\<close>

definition getTraversalOrder :: "'a list \<Rightarrow> ('a \<Rightarrow> jsnum) \<Rightarrow> bool \<Rightarrow> nat list" where
  "getTraversalOrder items orderBy descending =
     sort_by (\<lambda>itemA itemB.
                if descending then jsub (orderBy (items ! itemB)) (orderBy (items ! itemA))
                else jsub (orderBy (items ! itemA)) (orderBy (items ! itemB)))
       [0..<length items]"

text \<open>Reading an array at an index: undefined, in arithmetic \<open>NaN\<close>, past its end.\<close>

definition nth_num :: "jsnum list \<Rightarrow> nat \<Rightarrow> jsnum" where
  "nth_num vals i = (if i < length vals then vals ! i else NaN)"

definition nth_sparse :: "(nat \<rightharpoonup> jsnum) \<Rightarrow> nat \<Rightarrow> jsnum" where
  "nth_sparse arr i = (case arr i of None \<Rightarrow> NaN | Some v \<Rightarrow> v)"

text \<open>
  \<open>createSumArray\<close>: the sums of the values from each position of the order to its
  end, stored under the index at that position.  The order has as many entries as there
  are values, and the array is filled from the last position of the order to the first.
\<close>

fun createSumArray :: "jsnum list \<Rightarrow> nat list \<Rightarrow> (nat \<rightharpoonup> jsnum)" where
  "createSumArray vals [] = Map.empty"
| "createSumArray vals [i] = [i \<mapsto> nth_num vals i]"
| "createSumArray vals (i # j # rest) =
     (let sumArray = createSumArray vals (j # rest)
      in sumArray(i \<mapsto> jadd (nth_sparse sumArray j) (nth_num vals i)))"

definition calculateAdjustment :: "nat \<Rightarrow> jsnum \<Rightarrow> jsnum list \<Rightarrow> (nat \<rightharpoonup> jsnum) \<Rightarrow> jsnum" where
  "calculateAdjustment index remainingAdjustment fittingProportions fittingProportionSums =
     (let proportion = nth_num fittingProportions index;
          sumOfRemainingProportions = nth_sparse fittingProportionSums index
      in if jlt (jabs proportion) (rnd (1 / 100000)) \<and>
            jlt (jabs sumOfRemainingProportions) (rnd (1 / 100000))
         then remainingAdjustment
         else jdiv (jmul remainingAdjustment proportion) sumOfRemainingProportions)"

text \<open>The loop of \<open>stretchSizesToFitContainer\<close>, over the traversal order.\<close>

fun stretch_loop ::
  "orientation \<Rightarrow> jsnum list \<Rightarrow> (nat \<rightharpoonup> jsnum) \<Rightarrow> nat list \<Rightarrow> size_props list \<Rightarrow> jsnum
     \<Rightarrow> size_props list" where
  "stretch_loop ax fittingProportions fittingProportionSums [] sizesThisLine remainingUndershoot =
     sizesThisLine"
| "stretch_loop ax fittingProportions fittingProportionSums (index # rest) sizesThisLine
       remainingUndershoot =
     (let targetIncrease =
            calculateAdjustment index remainingUndershoot fittingProportions fittingProportionSums;
          targetSize = jadd (size_of ax (sizesThisLine ! index)) targetIncrease;
          maxSize = maxSize_of ax (sizesThisLine ! index);
          actualSize = jmin targetSize maxSize;
          sizes' = sizesThisLine[index := set_size ax actualSize (sizesThisLine ! index)];
          actualIncrease = jmax (jsub targetSize actualSize) (Fin 0);
          appliedIncrease = jsub targetIncrease actualIncrease
      in stretch_loop ax fittingProportions fittingProportionSums rest sizes'
           (jsub remainingUndershoot appliedIncrease))"

definition stretchSizesToFitContainer ::
  "layout_options \<Rightarrow> size_props list \<Rightarrow> jsnum \<Rightarrow> orientation \<Rightarrow> size_props list" where
  "stretchSizesToFitContainer opts sizesThisLine idealRequiredSpace ax =
     (let ascendingMaxSizeOrder = getTraversalOrder sizesThisLine (maxSize_of ax) False;
          fittingProportions = getNormalizedValues (fittingProportion_of ax) sizesThisLine;
          fittingProportionSums = createSumArray fittingProportions ascendingMaxSizeOrder
      in stretch_loop ax fittingProportions fittingProportionSums ascendingMaxSizeOrder
           sizesThisLine (jsub (axis_of ax (availableSpace opts)) idealRequiredSpace))"

text \<open>The loop of \<open>shrinkSizesToFitContainer\<close>.\<close>

fun shrink_loop ::
  "orientation \<Rightarrow> jsnum list \<Rightarrow> (nat \<rightharpoonup> jsnum) \<Rightarrow> nat list \<Rightarrow> size_props list \<Rightarrow> jsnum
     \<Rightarrow> size_props list" where
  "shrink_loop ax inverseFittingProportions inverseFittingProportionSums [] sizesThisLine
       remainingOvershoot = sizesThisLine"
| "shrink_loop ax inverseFittingProportions inverseFittingProportionSums (index # rest)
       sizesThisLine remainingOvershoot =
     (let targetReduction =
            calculateAdjustment index remainingOvershoot inverseFittingProportions
              inverseFittingProportionSums;
          targetSize = jsub (size_of ax (sizesThisLine ! index)) targetReduction;
          minSize = minSize_of ax (sizesThisLine ! index);
          actualSize = jmax targetSize minSize;
          sizes' = sizesThisLine[index := set_size ax actualSize (sizesThisLine ! index)];
          actualReduction = jmax (jsub actualSize targetSize) (Fin 0);
          appliedReduction = jsub targetReduction actualReduction
      in shrink_loop ax inverseFittingProportions inverseFittingProportionSums rest sizes'
           (jsub remainingOvershoot appliedReduction))"

definition shrinkSizesToFitContainer ::
  "layout_options \<Rightarrow> size_props list \<Rightarrow> jsnum \<Rightarrow> orientation \<Rightarrow> size_props list" where
  "shrinkSizesToFitContainer opts sizesThisLine idealRequiredSpace ax =
     (let descendingMinSizeOrder = getTraversalOrder sizesThisLine (minSize_of ax) True;
          fittingProportions = getNormalizedValues (fittingProportion_of ax) sizesThisLine;
          inverseFittingProportions = invertNormalizedValues fittingProportions;
          inverseFittingProportionSums =
            createSumArray inverseFittingProportions descendingMinSizeOrder
      in shrink_loop ax inverseFittingProportions inverseFittingProportionSums
           descendingMinSizeOrder sizesThisLine
           (jsub idealRequiredSpace (axis_of ax (availableSpace opts))))"

text \<open>The body of the loop of \<open>calculateSizesOnAxisA\<close>, for the size records of one line.\<close>

definition fitLineOnAxisA :: "layout_options \<Rightarrow> orientation \<Rightarrow> size_props list \<Rightarrow> size_props list" where
  "fitLineOnAxisA opts a sizesThisLine =
     (let idealRequiredSpace = calculateTotalSpace opts sizesThisLine a;
          fittingAction = determineFittingAction (fitting_of a opts) idealRequiredSpace
                            (axis_of a (availableSpace opts))
      in case fittingAction of
           APPLY_STRETCHING \<Rightarrow> stretchSizesToFitContainer opts sizesThisLine idealRequiredSpace a
         | APPLY_SHRINKING \<Rightarrow> shrinkSizesToFitContainer opts sizesThisLine idealRequiredSpace a
         | NONE \<Rightarrow> sizesThisLine)"

definition calculateSizesOnAxisA :: "layout_options \<Rightarrow> element list list \<Rightarrow> size_props list list" where
  "calculateSizesOnAxisA opts lines =
     map (\<lambda>line. fitLineOnAxisA opts (orientation opts) (getElementSizeProperties line)) lines"

text \<open>
  The running size of a line of elements under the options, and whether it exceeds the
  space available on the axis.
\<close>

definition running_size :: "layout_options \<Rightarrow> orientation \<Rightarrow> element list \<Rightarrow> jsnum" where
  "running_size opts a line =
     line_size (axis_of a (spacing opts)) (\<lambda>e. size_of a (elementSizeProperties e)) line"

definition overruns :: "layout_options \<Rightarrow> orientation \<Rightarrow> element list \<Rightarrow> bool" where
  "overruns opts a line = jgt (running_size opts a line) (axis_of a (availableSpace opts))"

text \<open>What the sanitization of \<open>getElementSizeProperties\<close> is meant to ensure.\<close>

definition sanitized :: "size_props \<Rightarrow> bool" where
  "sanitized s =
     (jge (minWidth s) (Fin 0) \<and> jge (minHeight s) (Fin 0) \<and>
      jge (maxWidth s) (minWidth s) \<and> jge (maxHeight s) (minHeight s) \<and>
      jle (minWidth s) (width s) \<and> jle (width s) (maxWidth s) \<and>
      jle (minHeight s) (height s) \<and> jle (height s) (maxHeight s))"

text \<open>An element with the given own properties and no layout child.\<close>

definition plain_element :: "nat \<Rightarrow> (prop_name \<Rightarrow> propval) \<Rightarrow> element" where
  "plain_element i props = \<lparr>el_id = i, layoutchild = None, el_props = props\<rparr>"

text \<open>
  The values the calculator is given are values of the engine: where an element, with
  its layout child, the options or a size record hold a number, it is a double, \<open>NaN\<close>
  or an infinity.
\<close>

definition js_prop :: "propval \<Rightarrow> bool" where
  "js_prop v = (case v of PNum x \<Rightarrow> js_number x | _ \<Rightarrow> True)"

definition js_element :: "element \<Rightarrow> bool" where
  "js_element e =
     ((\<forall>p. js_prop (el_props e p)) \<and>
      (case layoutchild e of None \<Rightarrow> True | Some lc \<Rightarrow> \<forall>p. js_prop (lc_props lc p)))"

definition js_options :: "layout_options \<Rightarrow> bool" where
  "js_options opts =
     (js_number (vx (spacing opts)) \<and> js_number (vy (spacing opts)) \<and>
      js_number (vx (containerSize opts)) \<and> js_number (vy (containerSize opts)) \<and>
      js_number (px (padding opts)) \<and> js_number (py (padding opts)) \<and>
      js_number (pz (padding opts)) \<and> js_number (pw (padding opts)) \<and>
      js_number (vx (alignment opts)) \<and> js_number (vy (alignment opts)))"





section \<open>Properties of the arithmetic\<close>

text \<open>\<open>ilog2 q\<close> is the exponent of a positive rational: \<open>2^e \<le> q < 2^(e + 1)\<close>.\<close>

lemma ilog2_lower:
  assumes "0 < q"
  shows "2 powi (ilog2 q) \<le> q"
proof (cases "1 \<le> q")
  case True
  let ?n = "\<lfloor>q\<rfloor>"
  have n: "1 \<le> ?n" using True by simp
  then have b: "2 ^ nat (bitlen ?n - 1) \<le> ?n" using bitlen_bounds[of ?n] by simp
  have "1 \<le> bitlen ?n" using n bitlen_eq_zero_iff[of ?n] bitlen_nonneg[of ?n] by linarith
  then have "(2::rat) powi (bitlen ?n - 1) = 2 ^ nat (bitlen ?n - 1)"
    by (simp add: power_int_nonneg_exp)
  also have "\<dots> = of_int (2 ^ nat (bitlen ?n - 1))" by simp
  also have "\<dots> \<le> of_int ?n" using b by (simp only: of_int_le_iff)
  also have "\<dots> \<le> q" by simp
  finally show ?thesis using True by (simp add: ilog2_def)
next
  case False
  let ?m = "\<lceil>1 / q\<rceil>"
  let ?k = "bitlen (?m - 1)"
  have "1 < 1 / q" using False assms by simp
  then have m: "2 \<le> ?m" by (simp add: less_ceiling_iff) 
  then have b: "?m - 1 < 2 ^ nat ?k" using bitlen_bounds[of "?m - 1"] by simp
  then have "?m \<le> 2 ^ nat ?k" by simp
  then have "(of_int ?m :: rat) \<le> of_int (2 ^ nat ?k)" by (simp only: of_int_le_iff)
  then have "(of_int ?m :: rat) \<le> 2 ^ nat ?k" by simp
  with le_of_int_ceiling[of "1 / q"] have "1 / q \<le> 2 ^ nat ?k" by (rule order_trans)
  then have "1 / 2 ^ nat ?k \<le> q" using assms by (simp add: field_simps)
  moreover have "(2::rat) powi (- ?k) = 1 / 2 ^ nat ?k"
    using bitlen_nonneg[of "?m - 1"] by (simp add: power_int_minus_divide power_int_nonneg_exp)
  ultimately show ?thesis using False by (simp add: ilog2_def)
qed

lemma ilog2_upper:
  assumes "0 < q"
  shows "q < 2 powi (ilog2 q + 1)"
proof (cases "1 \<le> q")
  case True
  let ?n = "\<lfloor>q\<rfloor>"
  have n: "1 \<le> ?n" using True by simp
  then have b: "?n < 2 ^ nat (bitlen ?n)" using bitlen_bounds[of ?n] by simp
  then have "?n + 1 \<le> 2 ^ nat (bitlen ?n)" by simp
  then have "(of_int (?n + 1) :: rat) \<le> of_int (2 ^ nat (bitlen ?n))" by (simp only: of_int_le_iff)
  moreover have "q < of_int (?n + 1)" by simp linarith
  ultimately have "q < 2 ^ nat (bitlen ?n)" by simp
  moreover have "(2::rat) powi (bitlen ?n) = 2 ^ nat (bitlen ?n)"
    using bitlen_nonneg[of ?n] by (simp add: power_int_nonneg_exp)
  ultimately show ?thesis using True by (simp add: ilog2_def)
next
  case False
  let ?m = "\<lceil>1 / q\<rceil>"
  let ?k = "bitlen (?m - 1)"
  have "1 < 1 / q" using False assms by simp
  then have m: "2 \<le> ?m" by (simp add: less_ceiling_iff)
  then have b: "2 ^ nat (?k - 1) \<le> ?m - 1" using bitlen_bounds[of "?m - 1"] by simp
  have k: "1 \<le> ?k" using m bitlen_eq_zero_iff[of "?m - 1"] bitlen_nonneg[of "?m - 1"] by linarith
  have "(of_int (2 ^ nat (?k - 1)) :: rat) \<le> of_int (?m - 1)" using b by (simp only: of_int_le_iff)
  moreover have "of_int (?m - 1) < 1 / q" using ceiling_correct[of "1 / q"] by simp
  ultimately have "2 ^ nat (?k - 1) < 1 / q" by simp
  then have "q < 1 / 2 ^ nat (?k - 1)" using assms by (simp add: field_simps)
  moreover have "(2::rat) powi (- ?k + 1) = 1 / 2 ^ nat (?k - 1)"
  proof -
    have "(2::rat) powi (- ?k + 1) = 2 powi (- (?k - 1))" by simp
    also have "\<dots> = 1 / 2 powi (?k - 1)" by (rule power_int_minus_divide)
    also have "\<dots> = 1 / 2 ^ nat (?k - 1)" using k by (simp add: power_int_nonneg_exp)
    finally show ?thesis .
  qed
  ultimately show ?thesis using False by (simp add: ilog2_def)
qed

text \<open>Rounding to an integer keeps an integer and the sign.\<close>

lemma round_even_of_int [simp]: "round_even (of_int n) = n"
  by (simp add: round_even_def)


lemma round_even_ge: "of_int k \<le> x \<Longrightarrow> k \<le> round_even x"
proof -
  assume "of_int k \<le> x"
  then have "k \<le> \<lfloor>x\<rfloor>" by (simp add: le_floor_iff)
  then show ?thesis by (simp add: round_even_def Let_def)
qed



text \<open>
  A rational with a significand of at most 53 bits and an exponent in the range of the
  doubles is a double: rounding leaves it as it is.  Every double is a multiple of the
  least positive one.
\<close>

lemma rnd_zero [simp]: "rnd 0 = Fin 0"
  by (simp add: rnd_def)

lemma ilog2_less:
  assumes "0 < q" and "q < 2 powi n"
  shows "ilog2 q < n"
proof (rule ccontr)
  assume "\<not> ilog2 q < n"
  then have "n \<le> ilog2 q" by simp
  then have "(2::rat) powi n \<le> 2 powi (ilog2 q)" by (simp add: power_int_increasing)
  with ilog2_lower[OF assms(1)] assms(2) show False by linarith
qed

lemma rnd_dyadic:
  assumes m: "\<bar>m\<bar> < 2 ^ 53" and k: "- 1074 \<le> k" "k \<le> 971"
  shows "rnd (of_int m * 2 powi k) = Fin (of_int m * 2 powi k)"
proof (cases "m = 0")
  case True
  then show ?thesis by simp
next
  case False
  let ?q = "of_int m * 2 powi k :: rat"
  let ?e = "max (- 1074) (ilog2 \<bar>?q\<bar> - 52)"
  have p: "(0::rat) < 2 powi k" by simp
  have q0: "?q \<noteq> 0" using False by simp
  have absq: "\<bar>?q\<bar> = of_int \<bar>m\<bar> * 2 powi k" by (simp add: abs_mult)
  have "(of_int \<bar>m\<bar> :: rat) < of_int (2 ^ 53)" using m by (simp only: of_int_less_iff)
  then have "\<bar>?q\<bar> < 2 ^ 53 * 2 powi k" using p unfolding absq by simp
  also have "\<dots> = 2 powi (53 + k)" by (simp add: power_int_add)
  finally have lt: "\<bar>?q\<bar> < 2 powi (53 + k)" .
  have "0 < \<bar>?q\<bar>" using q0 by simp
  from ilog2_less[OF this lt] have e: "?e \<le> k" using k by simp
  have "?q / 2 powi ?e = of_int m * (2 powi k / 2 powi ?e)" by simp
  also have "2 powi k / 2 powi ?e = (2::rat) powi (k - ?e)" by (simp add: power_int_diff)
  also have "\<dots> = 2 ^ nat (k - ?e)" using e by (simp add: power_int_nonneg_exp)
  finally have sc: "?q / 2 powi ?e = of_int (m * 2 ^ nat (k - ?e))" by simp
  have "of_int (round_even (?q / 2 powi ?e)) * 2 powi ?e = ?q / 2 powi ?e * 2 powi ?e"
    unfolding sc by (simp only: round_even_of_int)
  also have "\<dots> = ?q" by simp
  finally have r: "of_int (round_even (?q / 2 powi ?e)) * 2 powi ?e = ?q" .
  have "(2::rat) powi (53 + k) \<le> 2 powi 1024" using k by (intro power_int_increasing) simp_all
  with lt have "\<bar>?q\<bar> < 2 ^ 1024" by simp
  then have no: "\<not> 2 ^ 1024 \<le> \<bar>?q\<bar>" by simp
  show ?thesis
    unfolding rnd_def Let_def r using q0 no by simp
qed

lemma is_double_dyadic:
  "\<bar>m\<bar> < 2 ^ 53 \<Longrightarrow> - 1074 \<le> k \<Longrightarrow> k \<le> 971 \<Longrightarrow> is_double (of_int m * 2 powi k)"
  by (simp add: is_double_def rnd_dyadic)




text \<open>A number that reaches \<open>2^1024\<close> rounds to infinity.\<close>

lemma rnd_overflow:
  assumes "2 ^ 1024 \<le> q"
  shows "rnd q = PosInf"
proof -
  define e where "e = max (- 1074) (ilog2 \<bar>q\<bar> - 52)"
  have "(0::rat) < 2 ^ 1024" by simp
  with assms have q: "0 < q" by linarith
  have L: "1024 \<le> ilog2 q"
  proof (rule ccontr)
    assume "\<not> 1024 \<le> ilog2 q"
    then have "ilog2 q + 1 \<le> 1024" by simp
    then have "(2::rat) powi (ilog2 q + 1) \<le> 2 powi 1024" by (intro power_int_increasing) simp_all
    moreover have "(2::rat) powi 1024 = 2 ^ 1024" by simp
    ultimately show False using ilog2_upper[OF q] assms by linarith
  qed
  then have e: "e = ilog2 q - 52" using q by (simp add: e_def)
  have "(2::rat) ^ 52 * 2 powi e = 2 powi (52 + e)" by (simp add: power_int_add)
  also have "\<dots> = 2 powi (ilog2 q)" by (simp add: e)
  also have "\<dots> \<le> q" by (rule ilog2_lower[OF q])
  finally have "of_int (2 ^ 52) \<le> q / 2 powi e" by (simp add: field_simps)
  then have "2 ^ 52 \<le> round_even (q / 2 powi e)" by (rule round_even_ge)
  then have "(of_int (2 ^ 52) :: rat) \<le> of_int (round_even (q / 2 powi e))"
    by (simp only: of_int_le_iff)
  then have "(2::rat) ^ 52 * 2 powi e \<le> of_int (round_even (q / 2 powi e)) * 2 powi e"
    by (intro mult_right_mono) simp_all
  moreover have "(2::rat) powi 1024 \<le> 2 powi (52 + e)"
    using L by (intro power_int_increasing) (simp_all add: e)
  moreover have "(2::rat) ^ 52 * 2 powi e = 2 powi (52 + e)" by (simp add: power_int_add)
  ultimately have "(2::rat) powi 1024 \<le> of_int (round_even (q / 2 powi e)) * 2 powi e" by linarith
  then have "2 ^ 1024 \<le> \<bar>of_int (round_even (q / 2 powi e)) * 2 powi e :: rat\<bar>" by simp
  then show ?thesis
    using q unfolding rnd_def Let_def e_def[symmetric] by (simp add: signed_inf_def)
qed




lemma rnd_one [simp]: "rnd 1 = Fin 1"
  using rnd_dyadic[of 1 0] by simp

text \<open>Rounding a given rational is a computation.\<close>

lemma floor_rat_numeral: "\<lfloor>numeral a / numeral b :: rat\<rfloor> = numeral a div numeral b"
  by (metis floor_divide_of_int_eq of_int_numeral)

lemma ceiling_rat_numeral: "\<lceil>numeral a / numeral b :: rat\<rceil> = - (- numeral a div numeral b)"
  unfolding ceiling_def
  by (metis divide_minus_left floor_divide_of_int_eq of_int_neg_numeral of_int_numeral)

lemmas rnd_eval = rnd_def ilog2_def round_even_def Let_def compute_bitlen floor_rat_numeral
  ceiling_rat_numeral


lemma rnd_tenths:
  "rnd (1 / 10) = Fin (3602879701896397 / 36028797018963968)"
  "rnd (2 / 10) = Fin (3602879701896397 / 18014398509481984)"
  "rnd (3 / 10) = Fin (5404319552844595 / 18014398509481984)"
  by (simp_all add: rnd_eval)

lemma jadd_rounds:
  "jadd (rnd (1 / 10)) (rnd (2 / 10)) = Fin (5404319552844596 / 18014398509481984)"
  "jadd (Fin (2 ^ 53)) (Fin 1) = Fin (2 ^ 53)"
  "jadd (Fin (2 ^ 1023)) (Fin (2 ^ 1023)) = PosInf"
proof -
  show "jadd (rnd (1 / 10)) (rnd (2 / 10)) = Fin (5404319552844596 / 18014398509481984)"
    unfolding rnd_tenths by (simp add: rnd_eval)
  show "jadd (Fin (2 ^ 53)) (Fin 1) = Fin (2 ^ 53)" by (simp add: rnd_eval)
  show "jadd (Fin (2 ^ 1023)) (Fin (2 ^ 1023)) = PosInf" by (simp add: rnd_overflow)
qed

text \<open>
  Adding zero changes no number of the engine, and a difference of two such numbers has
  the sign of the exact difference: doubles being multiples of the least one, a
  difference that is not zero does not round to zero.
\<close>

lemma jadd_zero_left: "js_number a \<Longrightarrow> jadd (Fin 0) a = a"
  by (cases a) (simp_all add: is_double_def)


lemma js_number_jmax: "js_number a \<Longrightarrow> js_number b \<Longrightarrow> js_number (jmax a b)"
  by (simp add: jmax_def)

lemma js_number_jmin: "js_number a \<Longrightarrow> js_number b \<Longrightarrow> js_number (jmin a b)"
  by (simp add: jmin_def)

section \<open>Properties of the component base\<close>

lemma accessors_new_component: "accessors (new_component schema r e) = map descriptor_name schema"
  by (simp add: new_component_def buildAccessors_def)

lemma fired_events_fire_set:
  "fired_events (fire ''set'' p old v c) = fired_events c @
     [\<lparr>ev_name = ''set'', ev_prop = p, ev_old = old, ev_new = v\<rparr>,
      \<lparr>ev_name = ''set_'' @ p, ev_prop = p, ev_old = old, ev_new = v\<rparr>]"
  by (simp add: fire_def fire_named_def record_event_def onSetEnabled_def onEnable_def
      onDisable_def Let_def)

lemma hook_calls_fire_set:
  "hook_calls (fire ''set'' p old v c) = hook_calls c @
     (if p = ''enabled'' \<and> \<not> strict_eq old v \<and> entity_enabled c
      then [if truthy v then OnEnable else OnDisable] else [])"
  by (simp add: fire_def fire_named_def record_event_def onSetEnabled_def onEnable_def
      onDisable_def Let_def)

lemma store_record_fire: "store_record (fire ev p old v c) = store_record c"
  by (simp add: fire_def fire_named_def record_event_def onSetEnabled_def onEnable_def
      onDisable_def Let_def)

lemma entity_enabled_fire: "entity_enabled (fire ev p old v c) = entity_enabled c"
  by (simp add: fire_def fire_named_def record_event_def onSetEnabled_def onEnable_def
      onDisable_def Let_def)

lemma accessors_fire: "accessors (fire ev p old v c) = accessors c"
  by (simp add: fire_def fire_named_def record_event_def onSetEnabled_def onEnable_def
      onDisable_def Let_def)

text \<open>
  Claim C1, as amended.  For a property \<open>p\<close> that has a schema accessor, on a component
  whose data is registered in the store, the assignment of a value \<open>v\<close> succeeds, stores
  \<open>v\<close> and fires exactly two events, in this order: \<open>set\<close> and \<open>set_<p>\<close>, each with the
  property name, the value stored before and \<open>v\<close>.  This holds for every \<open>v\<close>, whether
  or not it equals the value stored before: the setter compares nothing.
\<close>

theorem C1_assign_fires_both_events:
  assumes "p \<in> set (accessors c)" and "data c = Some d"
  shows "(\<exists>c'. assign p v c = Inr c' \<and> data c' = Some (d(p \<mapsto> v))) \<and>
         events_since c (assign p v c) =
           [\<lparr>ev_name = ''set'', ev_prop = p, ev_old = member d p, ev_new = v\<rparr>,
            \<lparr>ev_name = ''set_'' @ p, ev_prop = p, ev_old = member d p, ev_new = v\<rparr>]"
  using assms
  by (simp add: assign_def accessor_set_def events_since_def Let_def fired_events_fire_set
      data_def store_record_fire)

theorem C1_assign_fires_both_events_witness:
  "''value'' \<in> set (accessors (new_component scrollbar_schema (Some [''value'' \<mapsto> Num (Fin 3)]) True)) \<and>
   data (new_component scrollbar_schema (Some [''value'' \<mapsto> Num (Fin 3)]) True) =
     Some [''value'' \<mapsto> Num (Fin 3)] \<and>
   events_since (new_component scrollbar_schema (Some [''value'' \<mapsto> Num (Fin 3)]) True)
     (assign ''value'' (Num (Fin 4))
        (new_component scrollbar_schema (Some [''value'' \<mapsto> Num (Fin 3)]) True)) =
     [\<lparr>ev_name = ''set'', ev_prop = ''value'', ev_old = Num (Fin 3), ev_new = Num (Fin 4)\<rparr>,
      \<lparr>ev_name = ''set_value'', ev_prop = ''value'', ev_old = Num (Fin 3), ev_new = Num (Fin 4)\<rparr>]"
proof -
  let ?c = "new_component scrollbar_schema (Some [''value'' \<mapsto> Num (Fin 3)]) True"
  have a: "''value'' \<in> set (accessors ?c)"
    by (simp add: accessors_new_component scrollbar_schema_def)
  have d: "data ?c = Some [''value'' \<mapsto> Num (Fin 3)]"
    by (simp add: data_def new_component_def buildAccessors_def)
  show ?thesis
    using a d C1_assign_fires_both_events [OF a d, of "Num (Fin 4)"] by (simp add: member_def)
qed

text \<open>
  The claim as it was stated fails on its second half: writing to the scrollbar's
  \<open>value\<close> the number it already holds fires \<open>set\<close> and \<open>set_value\<close> all the same.
\<close>

theorem C1_same_value_counterexample:
  "strict_eq (Num (Fin 3))
     (member (the (data (new_component scrollbar_schema (Some [''value'' \<mapsto> Num (Fin 3)]) True)))
        ''value'') \<and>
   map ev_name
     (events_since (new_component scrollbar_schema (Some [''value'' \<mapsto> Num (Fin 3)]) True)
        (assign ''value'' (Num (Fin 3))
           (new_component scrollbar_schema (Some [''value'' \<mapsto> Num (Fin 3)]) True))) =
     [''set'', ''set_value'']"
  by (simp add: strict_eq_def member_def data_def new_component_def buildAccessors_def
      scrollbar_schema_def assign_def accessor_set_def events_since_def Let_def
      fired_events_fire_set)

text \<open>
  Claim C2.  A write of a boolean to the \<open>enabled\<close> property of a registered component
  calls a hook exactly when the value stored before differs from the new one and the
  owning entity is enabled: \<open>onEnable\<close> when the new value is true, \<open>onDisable\<close> when it
  is false, and no hook otherwise.  A second write of true right after a write of true
  calls no hook, so the two writes together call \<open>onEnable\<close> at most once.
\<close>

theorem C2_enabled_write_hooks:
  assumes "''enabled'' \<in> set (accessors c)" and "data c = Some d"
  shows "hooks_since c (assign ''enabled'' (Bool b) c) =
           (if \<not> strict_eq (member d ''enabled'') (Bool b) \<and> entity_enabled c
            then [if b then OnEnable else OnDisable] else []) \<and>
         (\<forall>c1. assign ''enabled'' (Bool True) c = Inr c1 \<longrightarrow>
            hooks_since c1 (assign ''enabled'' (Bool True) c1) = [] \<and>
            length (filter (\<lambda>h. h = OnEnable)
              (hooks_since c (assign ''enabled'' (Bool True) c) @
               hooks_since c1 (assign ''enabled'' (Bool True) c1))) \<le> 1)"
  using assms
  by (auto simp add: assign_def accessor_set_def hooks_since_def Let_def hook_calls_fire_set
      data_def store_record_fire accessors_fire member_def strict_eq_def)

theorem C2_enabled_write_hooks_witness:
  "(let c = new_component scrollbar_schema (Some [''enabled'' \<mapsto> Bool False]) True;
        c1 = projr (assign ''enabled'' (Bool True) c)
    in ''enabled'' \<in> set (accessors c) \<and>
       data c = Some [''enabled'' \<mapsto> Bool False] \<and>
       hooks_since c (assign ''enabled'' (Bool True) c) = [OnEnable] \<and>
       assign ''enabled'' (Bool True) c = Inr c1 \<and>
       hooks_since c1 (assign ''enabled'' (Bool True) c1) = [] \<and>
       hooks_since c (assign ''enabled'' (Bool False) c) = [])"
proof -
  let ?c = "new_component scrollbar_schema (Some [''enabled'' \<mapsto> Bool False]) True"
  let ?c1 = "projr (assign ''enabled'' (Bool True) ?c)"
  have a: "''enabled'' \<in> set (accessors ?c)"
    by (simp add: accessors_new_component scrollbar_schema_def)
  have d: "data ?c = Some [''enabled'' \<mapsto> Bool False]"
    by (simp add: data_def new_component_def buildAccessors_def)
  have e: "entity_enabled ?c"
    by (simp add: new_component_def buildAccessors_def)
  have r: "assign ''enabled'' (Bool True) ?c = Inr ?c1"
    using a d by (simp add: assign_def accessor_set_def Let_def)
  show ?thesis
    using a d e r C2_enabled_write_hooks [OF a d, of True] C2_enabled_write_hooks [OF a d, of False]
    by (simp add: Let_def member_def strict_eq_def)
qed

section \<open>Properties of the animation component\<close>

lemma animationAssets_removeNodeAnimations:
  "animationAssets (removeNodeAnimations n l c) = animationAssets c"
  by (simp add: removeNodeAnimations_def debug_def split: option.splits prod.splits)

lemma setParameterValue_rejected:
  assumes "parameters c name = None \<or> (\<exists>p. parameters c name = Some p \<and> ptype p \<noteq> ty)"
  shows "setParameterValue name ty v c = debug (Log_cannot_set name ty) c"
  using assms by (auto simp add: setParameterValue_def)

lemma getParameterValue_rejected:
  assumes "parameters c name = None \<or> (\<exists>p. parameters c name = Some p \<and> ptype p \<noteq> ty)"
  shows "getParameterValue name ty c = (Undefined, debug (Log_cannot_get name ty) c)"
  using assms by (auto simp add: getParameterValue_def)

lemma reset_consumed_ok:
  "set ts \<subseteq> dom ps \<Longrightarrow> \<exists>ps'. reset_consumed ts ps = Inr ps' \<and> dom ps' = dom ps \<and>
     (\<forall>n. n \<notin> set ts \<longrightarrow> ps' n = ps n) \<and>
     (\<forall>n \<in> set ts. \<exists>p. ps n = Some p \<and> ps' n = Some (p\<lparr>pvalue := Bool False\<rparr>))"
proof (induction ts arbitrary: ps)
  case Nil
  then show ?case by simp
next
  case (Cons t ts)
  then obtain p where p: "ps t = Some p" by auto
  let ?ps = "ps(t \<mapsto> p\<lparr>pvalue := Bool False\<rparr>)"
  have "set ts \<subseteq> dom ?ps" using Cons.prems by auto
  from Cons.IH[OF this] obtain ps' where r: "reset_consumed ts ?ps = Inr ps'" "dom ps' = dom ?ps"
     "\<forall>n. n \<notin> set ts \<longrightarrow> ps' n = ?ps n"
     "\<forall>n \<in> set ts. \<exists>q. ?ps n = Some q \<and> ps' n = Some (q\<lparr>pvalue := Bool False\<rparr>)" by blast
  have "reset_consumed (t # ts) ps = Inr ps'" using p r(1) by simp
  moreover have "dom ps' = dom ps" using r(2) p by auto
  moreover have "\<forall>n. n \<notin> set (t # ts) \<longrightarrow> ps' n = ps n" using r(3) by auto
  moreover have "\<forall>n \<in> set (t # ts). \<exists>q. ps n = Some q \<and> ps' n = Some (q\<lparr>pvalue := Bool False\<rparr>)"
  proof
    fix n assume "n \<in> set (t # ts)"
    show "\<exists>q. ps n = Some q \<and> ps' n = Some (q\<lparr>pvalue := Bool False\<rparr>)"
    proof (cases "n \<in> set ts")
      case True
      with r(4) obtain q where q: "?ps n = Some q" "ps' n = Some (q\<lparr>pvalue := Bool False\<rparr>)" by blast
      show ?thesis
      proof (cases "n = t")
        case True
        with q p show ?thesis by auto
      next
        case False
        with q show ?thesis by auto
      qed
    next
      case False
      with \<open>n \<in> set (t # ts)\<close> have "n = t" by simp
      with False r(3) p show ?thesis by auto
    qed
  qed
  ultimately show ?case by blast
qed

lemma set_fold_set_add: "set (fold set_add xs ys) = set xs \<union> set ys"
  by (induction xs arbitrary: ys) (auto simp add: set_add_def)

lemma update_layers_consumed:
  assumes "\<And>l d ps cs. set (snd (lu l d ps cs)) \<subseteq> dom ps" and "set cs \<subseteq> dom ps"
  shows "set (snd (update_layers lu d ps ls cs)) \<subseteq> dom ps"
  using assms(2)
proof (induction ls arbitrary: cs)
  case Nil
  then show ?case by simp
next
  case (Cons l ls)
  obtain l' added where la: "lu l d ps cs = (l', added)" by (cases "lu l d ps cs")
  have "set added \<subseteq> dom ps" using assms(1)[of l d ps cs] la by simp
  then have "set (fold set_add added cs) \<subseteq> dom ps" using Cons.prems by (simp add: set_fold_set_add)
  from Cons.IH[OF this] show ?case using la by (auto split: prod.splits)
qed

lemma update_layers_keeps: "set cs \<subseteq> set (snd (update_layers lu d ps ls cs))"
proof (induction ls arbitrary: cs)
  case Nil
  then show ?case by simp
next
  case (Cons l ls)
  obtain l' added where la: "lu l d ps cs = (l', added)" by (cases "lu l d ps cs")
  have "set cs \<subseteq> set (fold set_add added cs)" by (simp add: set_fold_set_add)
  also have "\<dots> \<subseteq> set (snd (update_layers lu d ps ls (fold set_add added cs)))" by (rule Cons.IH)
  finally show ?case using la by (auto split: prod.splits)
qed

lemma setTrigger_on_trigger:
  assumes "parameters c t = Some p" and "ptype p = ANIM_PARAMETER_TRIGGER"
  shows "setTrigger t True c =
           c\<lparr>parameters := (parameters c)(t \<mapsto> p\<lparr>pvalue := Bool True\<rparr>),
             consumedTriggers := set_add t (consumedTriggers c)\<rparr>"
  using assms by (simp add: setTrigger_def setParameterValue_def Let_def)

lemma update_ok:
  assumes wf: "set (consumedTriggers c) \<subseteq> dom (parameters c)"
      and lu: "\<And>l d ps cs. set (snd (lu l d ps cs)) \<subseteq> dom ps"
  shows "\<exists>c' ps'. update lu dt c = Inr c' \<and>
           reset_consumed (snd (update_layers lu (jmul dt (speed c)) (parameters c) (layers c) (consumedTriggers c)))
             (parameters c) = Inr ps' \<and>
           c' = c\<lparr>layers := fst (update_layers lu (jmul dt (speed c)) (parameters c) (layers c) (consumedTriggers c)),
                  parameters := ps', consumedTriggers := []\<rparr>"
proof -
  let ?r = "update_layers lu (jmul dt (speed c)) (parameters c) (layers c) (consumedTriggers c)"
  have "set (snd ?r) \<subseteq> dom (parameters c)"
    by (rule update_layers_consumed[where lu=lu, OF lu wf])
  from reset_consumed_ok[OF this] obtain ps' where "reset_consumed (snd ?r) (parameters c) = Inr ps'"
    by blast
  then show ?thesis by (cases ?r) (simp add: update_def)
qed

text \<open>Every layer is advanced by its update, against the parameters given.\<close>

lemma update_layers_length: "length (fst (update_layers lu d ps ls cs)) = length ls"
proof (induction ls arbitrary: cs)
  case Nil
  show ?case by simp
next
  case (Cons l ls)
  obtain l' added where la: "lu l d ps cs = (l', added)" by (cases "lu l d ps cs")
  obtain ls' cs1 where r: "update_layers lu d ps ls (fold set_add added cs) = (ls', cs1)"
    by (cases "update_layers lu d ps ls (fold set_add added cs)")
  from Cons.IH[of "fold set_add added cs"] r have "length ls' = length ls" by simp
  then show ?case using la r by simp
qed

lemma update_layers_nth:
  "i < length ls \<Longrightarrow> \<exists>cs'. fst (update_layers lu d ps ls cs) ! i = fst (lu (ls ! i) d ps cs')"
proof (induction ls arbitrary: cs i)
  case Nil
  then show ?case by simp
next
  case (Cons l ls)
  obtain l' added where la: "lu l d ps cs = (l', added)" by (cases "lu l d ps cs")
  obtain ls' cs1 where r: "update_layers lu d ps ls (fold set_add added cs) = (ls', cs1)"
    by (cases "update_layers lu d ps ls (fold set_add added cs)")
  show ?case
  proof (cases i)
    case 0
    have "fst (update_layers lu d ps (l # ls) cs) ! 0 = fst (lu l d ps cs)"
      using la r by simp
    then show ?thesis using 0 by auto
  next
    case (Suc j)
    then have "j < length ls" using Cons.prems by simp
    from Cons.IH[OF this, of "fold set_add added cs"] obtain cs' where
      "fst (update_layers lu d ps ls (fold set_add added cs)) ! j = fst (lu (ls ! j) d ps cs')"
      by blast
    then have "fst (update_layers lu d ps (l # ls) cs) ! i = fst (lu ((l # ls) ! i) d ps cs')"
      using la r Suc by simp
    then show ?thesis by blast
  qed
qed

text \<open>
  The single-frame reset where it works.  Let \<open>t\<close> be a trigger parameter of an
  animation component whose set of consumed triggers holds names of parameters only,
  with layers whose update adds names of parameters only.  After \<open>setTrigger(t, true)\<close>,
  one call of \<open>update\<close> returns with \<open>t\<close> false and the set of consumed triggers empty,
  and every layer has been advanced by its update against the parameters in which \<open>t\<close>
  is still true: the reset comes after the layers.  A second call of \<open>update\<close> returns
  too, leaves \<open>t\<close> false and the set empty, and changes no parameter but those that a
  layer marks as consumed during that second call.
\<close>

lemma single_frame_trigger_reset:
  assumes t: "parameters c t = Some p" "ptype p = ANIM_PARAMETER_TRIGGER"
      and wf: "set (consumedTriggers c) \<subseteq> dom (parameters c)"
      and lu: "\<And>l d ps cs. set (snd (lu l d ps cs)) \<subseteq> dom ps"
  shows "\<exists>c1 c2.
      update lu dt (setTrigger t True c) = Inr c1 \<and>
      parameters c1 t = Some (p\<lparr>pvalue := Bool False\<rparr>) \<and>
      consumedTriggers c1 = [] \<and>
      length (layers c1) = length (layers c) \<and>
      (\<forall>i < length (layers c). \<exists>cs.
         layers c1 ! i = fst (lu (layers c ! i) (jmul dt (speed c))
                                ((parameters c)(t \<mapsto> p\<lparr>pvalue := Bool True\<rparr>)) cs)) \<and>
      update lu dt' c1 = Inr c2 \<and>
      parameters c2 t = Some (p\<lparr>pvalue := Bool False\<rparr>) \<and>
      consumedTriggers c2 = [] \<and>
      (\<forall>n. n \<notin> set (snd (update_layers lu (jmul dt' (speed c1)) (parameters c1) (layers c1) []))
           \<longrightarrow> parameters c2 n = parameters c1 n) \<and>
      (snd (update_layers lu (jmul dt' (speed c1)) (parameters c1) (layers c1) []) = []
           \<longrightarrow> parameters c2 = parameters c1)"
proof -
  let ?c0 = "setTrigger t True c"
  let ?ps0 = "(parameters c)(t \<mapsto> p\<lparr>pvalue := Bool True\<rparr>)"
  have c0: "?c0 = c\<lparr>parameters := ?ps0, consumedTriggers := set_add t (consumedTriggers c)\<rparr>"
    by (rule setTrigger_on_trigger[OF t])
  have wf0: "set (consumedTriggers ?c0) \<subseteq> dom (parameters ?c0)"
    using wf t by (auto simp add: c0 set_add_def)
  let ?r = "update_layers lu (jmul dt (speed c)) ?ps0 (layers c) (set_add t (consumedTriggers c))"
  from update_ok[where c="?c0" and lu=lu and dt=dt, OF wf0 lu] obtain c1 ps1 where
    u1: "update lu dt ?c0 = Inr c1" and
    r1: "reset_consumed (snd ?r) ?ps0 = Inr ps1" and
    c1: "c1 = ?c0\<lparr>layers := fst ?r, parameters := ps1, consumedTriggers := []\<rparr>"
    by (auto simp add: c0)
  have in0: "set (set_add t (consumedTriggers c)) \<subseteq> dom ?ps0"
    using wf by (auto simp add: set_add_def)
  have sub1: "set (snd ?r) \<subseteq> dom ?ps0"
    by (rule update_layers_consumed[where lu=lu, OF lu in0])
  have tin: "t \<in> set (snd ?r)"
    using update_layers_keeps[of "set_add t (consumedTriggers c)" lu "jmul dt (speed c)" ?ps0 "layers c"]
    by (auto simp add: set_add_def split: if_splits)
  from reset_consumed_ok[OF sub1] r1 have
    val1: "\<forall>n \<in> set (snd ?r). \<exists>q. ?ps0 n = Some q \<and> ps1 n = Some (q\<lparr>pvalue := Bool False\<rparr>)"
    by auto
  from val1 tin obtain q where "?ps0 t = Some q" and "ps1 t = Some (q\<lparr>pvalue := Bool False\<rparr>)"
    by blast
  then have pt1: "ps1 t = Some (p\<lparr>pvalue := Bool False\<rparr>)" by auto
  have p1: "parameters c1 = ps1" and k1: "consumedTriggers c1 = []" and l1: "layers c1 = fst ?r"
    by (simp_all add: c1)
  have adv: "length (layers c1) = length (layers c) \<and>
      (\<forall>i < length (layers c). \<exists>cs.
         layers c1 ! i = fst (lu (layers c ! i) (jmul dt (speed c)) ?ps0 cs))"
    unfolding l1 using update_layers_nth[of _ "layers c" lu "jmul dt (speed c)" ?ps0]
    by (simp add: update_layers_length)
  have wf1: "set (consumedTriggers c1) \<subseteq> dom (parameters c1)" by (simp add: k1)
  let ?r2 = "update_layers lu (jmul dt' (speed c1)) (parameters c1) (layers c1) []"
  from update_ok[where c=c1 and lu=lu and dt=dt', OF wf1 lu] obtain c2 ps2 where
    u2: "update lu dt' c1 = Inr c2" and
    r2: "reset_consumed (snd ?r2) (parameters c1) = Inr ps2" and
    c2: "c2 = c1\<lparr>layers := fst ?r2, parameters := ps2, consumedTriggers := []\<rparr>"
    by (auto simp add: k1)
  have sub2: "set (snd ?r2) \<subseteq> dom (parameters c1)"
    using update_layers_consumed[where lu=lu and cs="[]" and ps="parameters c1", OF lu] by simp
  from reset_consumed_ok[OF sub2] r2 have
    same2: "\<forall>n. n \<notin> set (snd ?r2) \<longrightarrow> ps2 n = parameters c1 n" and
    val2: "\<forall>n \<in> set (snd ?r2). \<exists>q. parameters c1 n = Some q \<and> ps2 n = Some (q\<lparr>pvalue := Bool False\<rparr>)"
    by auto
  have pt2: "ps2 t = Some (p\<lparr>pvalue := Bool False\<rparr>)"
  proof (cases "t \<in> set (snd ?r2)")
    case True
    with val2 obtain q where "parameters c1 t = Some q" "ps2 t = Some (q\<lparr>pvalue := Bool False\<rparr>)" by blast
    with pt1 p1 show ?thesis by auto
  next
    case False
    with same2 pt1 p1 show ?thesis by simp
  qed
  have p2: "parameters c2 = ps2" and k2: "consumedTriggers c2 = []" by (simp_all add: c2)
  have all2: "snd ?r2 = [] \<longrightarrow> parameters c2 = parameters c1"
    using same2 p2 by auto
  show ?thesis
  proof (rule exI[of _ c1], rule exI[of _ c2], intro conjI)
    show "update lu dt (setTrigger t True c) = Inr c1" by (rule u1)
    show "parameters c1 t = Some (p\<lparr>pvalue := Bool False\<rparr>)" using pt1 p1 by simp
    show "consumedTriggers c1 = []" by (rule k1)
    show "length (layers c1) = length (layers c)" using adv by blast
    show "\<forall>i < length (layers c). \<exists>cs.
         layers c1 ! i = fst (lu (layers c ! i) (jmul dt (speed c)) ?ps0 cs)"
      using adv by blast
    show "update lu dt' c1 = Inr c2" by (rule u2)
    show "parameters c2 t = Some (p\<lparr>pvalue := Bool False\<rparr>)" using pt2 p2 by simp
    show "consumedTriggers c2 = []" by (rule k2)
    show "\<forall>n. n \<notin> set (snd ?r2) \<longrightarrow> parameters c2 n = parameters c1 n"
      using same2 p2 by simp
    show "snd ?r2 = [] \<longrightarrow> parameters c2 = parameters c1" by (rule all2)
  qed
qed

text \<open>
  Loading a state graph replaces the parameters by those of the graph and leaves the set
  of consumed triggers as it is; with no asset to resolve it does not fail.
\<close>

lemma removeNodeAnimations_keeps:
  "parameters (removeNodeAnimations n l c) = parameters c \<and>
   consumedTriggers (removeNodeAnimations n l c) = consumedTriggers c"
  by (simp add: removeNodeAnimations_def debug_def split: option.splits prod.splits)

lemma loadAnimationAsset_step_keeps:
  assumes "loadAnimationAsset_step control assets l n c = Inr c'"
  shows "parameters c' = parameters c \<and> consumedTriggers c' = consumedTriggers c"
  using assms removeNodeAnimations_keeps[of n l c]
  by (auto simp add: loadAnimationAsset_step_def onAnimationAssetLoaded_def
      split: if_splits option.splits resource.splits prod.splits)

lemma loadAnimationAssets_states_keeps:
  "loadAnimationAssets_states control assets l ns c = Inr c' \<Longrightarrow>
   parameters c' = parameters c \<and> consumedTriggers c' = consumedTriggers c"
proof (induction ns arbitrary: c)
  case Nil
  then show ?case by simp
next
  case (Cons n ns)
  then obtain c1 where 1: "loadAnimationAsset_step control assets l n c = Inr c1"
    and 2: "loadAnimationAssets_states control assets l ns c1 = Inr c'"
    by (auto split: sum.splits)
  from loadAnimationAsset_step_keeps[OF 1] Cons.IH[OF 2] show ?case by simp
qed

lemma loadAnimationAssets_layers_keeps:
  "loadAnimationAssets_layers control assets is c = Inr c' \<Longrightarrow>
   parameters c' = parameters c \<and> consumedTriggers c' = consumedTriggers c"
proof (induction "is" arbitrary: c)
  case Nil
  then show ?case by simp
next
  case (Cons i "is")
  then obtain c1 where
    1: "loadAnimationAssets_states control assets (layer_name (layers c ! i))
          (layer_states (layers c ! i)) c = Inr c1"
    and 2: "loadAnimationAssets_layers control assets is c1 = Inr c'"
    by (auto split: sum.splits)
  from loadAnimationAssets_states_keeps[OF 1] Cons.IH[OF 2] show ?case by simp
qed

lemma setupAnimationAssets_states_keeps:
  "parameters (setupAnimationAssets_states control l ns c) = parameters c \<and>
   consumedTriggers (setupAnimationAssets_states control l ns c) = consumedTriggers c"
  by (induction ns arbitrary: c) (simp_all add: Let_def)

lemma setupAnimationAssets_layers_keeps:
  "parameters (setupAnimationAssets_layers control ls c) = parameters c \<and>
   consumedTriggers (setupAnimationAssets_layers control ls c) = consumedTriggers c"
  by (induction ls arbitrary: c) (simp_all add: setupAnimationAssets_states_keeps)

lemma fold_addLayer_keeps:
  "parameters (fold addLayer_internal lds c) = parameters c \<and>
   consumedTriggers (fold addLayer_internal lds c) = consumedTriggers c"
  by (induction lds arbitrary: c) (simp_all add: addLayer_internal_def Let_def)

lemma loadStateGraph_keeps_consumedTriggers:
  assumes "loadStateGraph control assets g c = Inr c'"
  shows "consumedTriggers c' = consumedTriggers c \<and>
         parameters c' = load_parameters (sg_parameters g) (sg_parameters g) Map.empty"
  using loadAnimationAssets_layers_keeps[OF assms[unfolded loadStateGraph_def Let_def
          setupAnimationAssets_def loadAnimationAssets_def]]
  by (simp add: setupAnimationAssets_layers_keeps fold_addLayer_keeps)

lemma loadAnimationAssets_states_no_assets:
  "\<exists>c'. loadAnimationAssets_states control Map.empty l ns c = Inr c'"
proof (induction ns arbitrary: c)
  case Nil
  show ?case by simp
next
  case (Cons n ns)
  have "\<exists>c1. loadAnimationAsset_step control Map.empty l n c = Inr c1"
    by (simp add: loadAnimationAsset_step_def split: option.splits)
  then obtain c1 where "loadAnimationAsset_step control Map.empty l n c = Inr c1" by blast
  with Cons.IH[of c1] show ?case by simp
qed

lemma loadAnimationAssets_layers_no_assets:
  "\<exists>c'. loadAnimationAssets_layers control Map.empty is c = Inr c'"
proof (induction "is" arbitrary: c)
  case Nil
  show ?case by simp
next
  case (Cons i "is")
  obtain c1 where "loadAnimationAssets_states control Map.empty (layer_name (layers c ! i))
          (layer_states (layers c ! i)) c = Inr c1"
    using loadAnimationAssets_states_no_assets by blast
  with Cons.IH[of c1] show ?case by simp
qed

lemma loadStateGraph_no_assets: "\<exists>c'. loadStateGraph control Map.empty g c = Inr c'"
  by (simp add: loadStateGraph_def Let_def setupAnimationAssets_def loadAnimationAssets_def
      loadAnimationAssets_layers_no_assets)

lemma update_layers_idle:
  "update_layers (\<lambda>l d ps cs. (l, [])) d ps ls cs = (ls, cs)"
  by (induction ls arbitrary: cs) simp_all

text \<open>
  Claim C3, on the code.  The set of consumed triggers outlives the parameters it
  names: \<open>loadStateGraph\<close> and \<open>removeStateGraph\<close> replace the parameters and the layers
  and leave the set as it is, and \<open>update\<close> writes to \<open>parameters[trigger].value\<close> for
  every name of the set.  A component loads a graph with the trigger \<open>a\<close>, sets it for
  one frame, and loads a graph with the trigger \<open>b\<close> before the next update; \<open>b\<close> is
  then a trigger parameter of the component, and after \<open>setTrigger('b', true)\<close> the set
  holds \<open>a\<close> and \<open>b\<close>.  The call of \<open>update\<close> throws a TypeError at \<open>a\<close>, which is no
  parameter any more: \<open>b\<close> is not reset to false and the set is not cleared.  The same
  happens when the first graph was removed with \<open>removeStateGraph\<close> in between.
\<close>

theorem C3_stale_consumed_trigger_breaks_update:
  "(let trigger = \<lparr>ptype = ANIM_PARAMETER_TRIGGER, pvalue = Bool False\<rparr>;
        base = \<lparr>ld_name = ''Base'',
                ld_states = [\<lparr>st_name = ''START'', st_speed = Fin 1\<rparr>,
                             \<lparr>st_name = ''Idle'', st_speed = Fin 1\<rparr>],
                ld_transitions = [\<lparr>tr_from = ''START'', tr_to = ''Idle''\<rparr>]\<rparr>;
        graphA = \<lparr>sg_layers = [base], sg_parameters = [(''a'', trigger)]\<rparr>;
        graphB = \<lparr>sg_layers = [base], sg_parameters = [(''b'', trigger)]\<rparr>;
        control = [''START'', ''END'', ''ANY''];
        lu = (\<lambda>l d ps cs. (l, []));
        c1 = projr (loadStateGraph control Map.empty graphA new_anim_component);
        c2 = setTrigger ''a'' True c1;
        c3 = projr (loadStateGraph control Map.empty graphB c2);
        c3' = projr (loadStateGraph control Map.empty graphB (removeStateGraph c2));
        c4 = setTrigger ''b'' True c3;
        c4' = setTrigger ''b'' True c3'
    in isl (loadStateGraph control Map.empty graphA new_anim_component) = False \<and>
       isl (loadStateGraph control Map.empty graphB c2) = False \<and>
       isl (loadStateGraph control Map.empty graphB (removeStateGraph c2)) = False \<and>
       parameters c2 = [''a'' \<mapsto> trigger\<lparr>pvalue := Bool True\<rparr>] \<and>
       consumedTriggers c2 = [''a''] \<and>
       parameters c3 = [''b'' \<mapsto> trigger] \<and>
       consumedTriggers c3 = [''a''] \<and>
       parameters c4 = [''b'' \<mapsto> trigger\<lparr>pvalue := Bool True\<rparr>] \<and>
       consumedTriggers c4 = [''a'', ''b''] \<and>
       update lu (Fin 0) c4 = Inl TypeError \<and>
       parameters c4' = [''b'' \<mapsto> trigger\<lparr>pvalue := Bool True\<rparr>] \<and>
       consumedTriggers c4' = [''a'', ''b''] \<and>
       update lu (Fin 0) c4' = Inl TypeError)"
proof -
  define trigger where "trigger = \<lparr>ptype = ANIM_PARAMETER_TRIGGER, pvalue = Bool False\<rparr>"
  define base where "base = \<lparr>ld_name = ''Base'',
                ld_states = [\<lparr>st_name = ''START'', st_speed = Fin 1\<rparr>,
                             \<lparr>st_name = ''Idle'', st_speed = Fin 1\<rparr>],
                ld_transitions = [\<lparr>tr_from = ''START'', tr_to = ''Idle''\<rparr>]\<rparr>"
  define graphA where "graphA = \<lparr>sg_layers = [base], sg_parameters = [(''a'', trigger)]\<rparr>"
  define graphB where "graphB = \<lparr>sg_layers = [base], sg_parameters = [(''b'', trigger)]\<rparr>"
  define control where "control = [''START'', ''END'', ''ANY'']"
  define lu :: layer_update where "lu = (\<lambda>l d ps cs. (l, []))"
  define c1 where "c1 = projr (loadStateGraph control Map.empty graphA new_anim_component)"
  define c2 where "c2 = setTrigger ''a'' True c1"
  define c3 where "c3 = projr (loadStateGraph control Map.empty graphB c2)"
  define c3' where "c3' = projr (loadStateGraph control Map.empty graphB (removeStateGraph c2))"
  define c4 where "c4 = setTrigger ''b'' True c3"
  define c4' where "c4' = setTrigger ''b'' True c3'"
  have l1: "loadStateGraph control Map.empty graphA new_anim_component = Inr c1"
    using loadStateGraph_no_assets[of control graphA new_anim_component] by (auto simp add: c1_def)
  have l3: "loadStateGraph control Map.empty graphB c2 = Inr c3"
    using loadStateGraph_no_assets[of control graphB c2] by (auto simp add: c3_def)
  have l3': "loadStateGraph control Map.empty graphB (removeStateGraph c2) = Inr c3'"
    using loadStateGraph_no_assets[of control graphB "removeStateGraph c2"]
    by (auto simp add: c3'_def)
  have p1: "parameters c1 = [''a'' \<mapsto> trigger]" and k1: "consumedTriggers c1 = []"
    using loadStateGraph_keeps_consumedTriggers[OF l1]
    by (simp_all add: graphA_def trigger_def new_anim_component_def)
  have p2: "parameters c2 = [''a'' \<mapsto> trigger\<lparr>pvalue := Bool True\<rparr>]"
    and k2: "consumedTriggers c2 = [''a'']"
    using p1 k1 by (simp_all add: c2_def setTrigger_def setParameterValue_def trigger_def
        set_add_def Let_def)
  have p3: "parameters c3 = [''b'' \<mapsto> trigger]" and k3: "consumedTriggers c3 = [''a'']"
    using loadStateGraph_keeps_consumedTriggers[OF l3] k2
    by (simp_all add: graphB_def trigger_def)
  have p3': "parameters c3' = [''b'' \<mapsto> trigger]" and k3': "consumedTriggers c3' = [''a'']"
    using loadStateGraph_keeps_consumedTriggers[OF l3'] k2
    by (simp_all add: graphB_def trigger_def removeStateGraph_def)
  have p4: "parameters c4 = [''b'' \<mapsto> trigger\<lparr>pvalue := Bool True\<rparr>]"
    and k4: "consumedTriggers c4 = [''a'', ''b'']"
    using p3 k3 by (simp_all add: c4_def setTrigger_def setParameterValue_def trigger_def
        set_add_def Let_def)
  have p4': "parameters c4' = [''b'' \<mapsto> trigger\<lparr>pvalue := Bool True\<rparr>]"
    and k4': "consumedTriggers c4' = [''a'', ''b'']"
    using p3' k3' by (simp_all add: c4'_def setTrigger_def setParameterValue_def trigger_def
        set_add_def Let_def)
  have u4: "update lu (Fin 0) c4 = Inl TypeError"
    by (simp add: update_def lu_def update_layers_idle p4 k4)
  have u4': "update lu (Fin 0) c4' = Inl TypeError"
    by (simp add: update_def lu_def update_layers_idle p4' k4')
  have "isl (loadStateGraph control Map.empty graphA new_anim_component) = False \<and>
       isl (loadStateGraph control Map.empty graphB c2) = False \<and>
       isl (loadStateGraph control Map.empty graphB (removeStateGraph c2)) = False \<and>
       parameters c2 = [''a'' \<mapsto> trigger\<lparr>pvalue := Bool True\<rparr>] \<and>
       consumedTriggers c2 = [''a''] \<and>
       parameters c3 = [''b'' \<mapsto> trigger] \<and>
       consumedTriggers c3 = [''a''] \<and>
       parameters c4 = [''b'' \<mapsto> trigger\<lparr>pvalue := Bool True\<rparr>] \<and>
       consumedTriggers c4 = [''a'', ''b''] \<and>
       update lu (Fin 0) c4 = Inl TypeError \<and>
       parameters c4' = [''b'' \<mapsto> trigger\<lparr>pvalue := Bool True\<rparr>] \<and>
       consumedTriggers c4' = [''a'', ''b''] \<and>
       update lu (Fin 0) c4' = Inl TypeError"
    using l1 l3 l3' p2 k2 p3 k3 p4 k4 u4 p4' k4' u4' by simp
  then show ?thesis
    unfolding Let_def c4'_def c4_def c3'_def c3_def c2_def c1_def lu_def control_def graphB_def
      graphA_def base_def trigger_def .
qed

text \<open>
  Claim C6.  On a freshly constructed animation component, loading a graph of one layer
  whose states are \<open>START\<close> and one other state \<open>S\<close> that is not a control state (in
  either order) succeeds and leaves a manifest of animation assets with exactly one
  entry, under the key \<open><layer name>:S\<close>, whose asset is null.  \<open>START\<close> gets no entry
  because it is a control state.
\<close>

theorem C6_manifest_of_single_state:
  assumes "''START'' \<in> set control_states" and "S \<notin> set control_states"
      and "map st_name (ld_states ld) = [''START'', S] \<or> map st_name (ld_states ld) = [S, ''START'']"
  shows "\<exists>c. loadStateGraph control_states assets \<lparr>sg_layers = [ld], sg_parameters = gps\<rparr>
                new_anim_component = Inr c \<and>
             dom (animationAssets c) = {ld_name ld @ '':'' @ S} \<and>
             animationAssets c (ld_name ld @ '':'' @ S) = Some \<lparr>asset = None\<rparr>"
  using assms
  by (auto simp add: loadStateGraph_def setupAnimationAssets_def loadAnimationAssets_def
      loadAnimationAsset_step_def addLayer_internal_def new_anim_component_def Let_def
      animationAssets_removeNodeAnimations)

theorem C6_manifest_of_single_state_witness:
  "''START'' \<in> set [''START'', ''END'', ''ANY''] \<and> ''Idle'' \<notin> set [''START'', ''END'', ''ANY''] \<and>
   (\<exists>c. loadStateGraph [''START'', ''END'', ''ANY''] Map.empty
          \<lparr>sg_layers = [\<lparr>ld_name = ''Base'',
                          ld_states = [\<lparr>st_name = ''START'', st_speed = Fin 1\<rparr>,
                                       \<lparr>st_name = ''Idle'', st_speed = Fin 1\<rparr>],
                          ld_transitions = [\<lparr>tr_from = ''START'', tr_to = ''Idle''\<rparr>]\<rparr>],
            sg_parameters = []\<rparr> new_anim_component = Inr c \<and>
        dom (animationAssets c) = {''Base:Idle''} \<and>
        animationAssets c ''Base:Idle'' = Some \<lparr>asset = None\<rparr>)"
  using C6_manifest_of_single_state[of "[''START'', ''END'', ''ANY'']" "''Idle''"
      "\<lparr>ld_name = ''Base'',
         ld_states = [\<lparr>st_name = ''START'', st_speed = Fin 1\<rparr>, \<lparr>st_name = ''Idle'', st_speed = Fin 1\<rparr>],
         ld_transitions = [\<lparr>tr_from = ''START'', tr_to = ''Idle''\<rparr>]\<rparr>" Map.empty "[]"]
  by simp

text \<open>
  Claim C7.  Setting \<open>stateGraphAsset\<close> to null is \<open>removeStateGraph\<close>: whatever the
  component held, afterwards its layers, layer indices, parameters and manifest of
  animation assets are empty, its state graph and state graph asset are null, and
  \<open>playing\<close> is false.
\<close>

theorem C7_null_state_graph_asset_resets:
  "set_stateGraphAsset control_states AssetNull (assets, c) = Inr (assets, removeStateGraph c) \<and>
   layers (removeStateGraph c) = [] \<and>
   layerIndices (removeStateGraph c) = Map.empty \<and>
   parameters (removeStateGraph c) = Map.empty \<and>
   animationAssets (removeStateGraph c) = Map.empty \<and>
   stateGraph (removeStateGraph c) = None \<and>
   stateGraphAsset (removeStateGraph c) = None \<and>
   playing (removeStateGraph c) = False"
  by (simp add: set_stateGraphAsset_def removeStateGraph_def)

text \<open>
  The typed setters other than \<open>setTrigger\<close> with \<open>singleFrame\<close> leave all of the
  component but its diagnostics as it was when the name is no parameter of the requested
  type, and the getters return undefined.
\<close>

lemma rejected_accessors:
  assumes "parameters c name = None \<or> (\<exists>p. parameters c name = Some p \<and> ptype p \<noteq> ty)"
  shows "ty = ANIM_PARAMETER_FLOAT \<Longrightarrow> setFloat name v c = debug (Log_cannot_set name ty) c"
    and "ty = ANIM_PARAMETER_INTEGER \<Longrightarrow>
           setInteger name v c = debug (if is_integer_number v then Log_cannot_set name ty
                                        else Error_non_integer) c"
    and "ty = ANIM_PARAMETER_BOOLEAN \<Longrightarrow> setBoolean name v c = debug (Log_cannot_set name ty) c"
    and "ty = ANIM_PARAMETER_TRIGGER \<Longrightarrow> resetTrigger name c = debug (Log_cannot_set name ty) c"
    and "ty = ANIM_PARAMETER_TRIGGER \<Longrightarrow> setTrigger name False c = debug (Log_cannot_set name ty) c"
    and "ty = ANIM_PARAMETER_FLOAT \<Longrightarrow> getFloat name c = (Undefined, debug (Log_cannot_get name ty) c)"
    and "ty = ANIM_PARAMETER_INTEGER \<Longrightarrow> getInteger name c = (Undefined, debug (Log_cannot_get name ty) c)"
    and "ty = ANIM_PARAMETER_BOOLEAN \<Longrightarrow> getBoolean name c = (Undefined, debug (Log_cannot_get name ty) c)"
    and "ty = ANIM_PARAMETER_TRIGGER \<Longrightarrow> getTrigger name c = (Undefined, debug (Log_cannot_get name ty) c)"
  using setParameterValue_rejected[OF assms] getParameterValue_rejected[OF assms]
  by (simp_all add: setFloat_def setInteger_def setBoolean_def resetTrigger_def setTrigger_def
      getFloat_def getInteger_def getBoolean_def getTrigger_def Let_def)

text \<open>
  Claim C8, on the code.  A component whose only parameter is the float \<open>speed\<close>:
  \<open>setTrigger('speed', true)\<close> and \<open>setTrigger('jump', true)\<close> are rejected, the
  diagnostic is written and the parameters are unchanged, but the name is added to the
  set of consumed triggers all the same.  The set is not a no-op: the next \<open>update\<close>
  writes false into the float \<open>speed\<close>, and throws a TypeError for \<open>jump\<close>, which is no
  parameter at all.
\<close>

theorem C8_setTrigger_marks_rejected_name:
  "(let c = new_anim_component\<lparr>parameters :=
              [''speed'' \<mapsto> \<lparr>ptype = ANIM_PARAMETER_FLOAT, pvalue = Num (Fin 1)\<rparr>]\<rparr>;
        lu = (\<lambda>l d ps cs. (l, []))
    in parameters (setTrigger ''speed'' True c) = parameters c \<and>
       debug_log (setTrigger ''speed'' True c) = [Log_cannot_set ''speed'' ANIM_PARAMETER_TRIGGER] \<and>
       consumedTriggers c = [] \<and>
       consumedTriggers (setTrigger ''speed'' True c) = [''speed''] \<and>
       parameters (projr (update lu (Fin 0) (setTrigger ''speed'' True c))) ''speed'' =
         Some \<lparr>ptype = ANIM_PARAMETER_FLOAT, pvalue = Bool False\<rparr> \<and>
       consumedTriggers (setTrigger ''jump'' True c) = [''jump''] \<and>
       update lu (Fin 0) (setTrigger ''jump'' True c) = Inl TypeError)"
  by (simp add: Let_def new_anim_component_def setTrigger_def setParameterValue_def debug_def
      set_add_def update_def)

section \<open>Properties of the model component\<close>

text \<open>
  Claim C9.  Assigning to \<open>model\<close> a model instance other than the component's own that
  is flagged immutable, as a model owned by a component is, writes the diagnostic and
  nothing else: the component keeps its model and all its fields, and the heap of
  models, the flags and mesh instances of both models included, is unchanged.
\<close>

theorem C9_owned_model_rejected:
  assumes "mc_model (mcomp w) \<noteq> Some m" and "heap w m = Some mo" and "immutable mo"
  shows "set_model (Some m) w =
           w\<lparr>effects := effects w @
               [DebugError ''Invalid attempt to assign a model to multiple ModelComponents'']\<rparr>"
  using assms by (simp add: set_model_def effect_def)

theorem C9_owned_model_rejected_witness:
  "(let w = \<lparr>heap = [1 \<mapsto> \<lparr>immutable = True, meshInstances = [], owner_entity = Some 7, destroyed = False\<rparr>,
                       2 \<mapsto> \<lparr>immutable = True, meshInstances = [], owner_entity = Some 3, destroyed = False\<rparr>],
               mcomp = \<lparr>mc_type = ''asset'', mc_model = Some 2, mc_castShadows = True,
                        mc_receiveShadows = True, mc_isStatic = False, mc_lightmapped = False,
                        mc_customAabb = None, mc_layers = [0], mc_clonedModel = False, mc_enabled = True\<rparr>,
               entity_id = 3, entity_is_enabled = True, entity_has_animation = False,
               entity_anim_playing = None, scene_layer_ids = [0], effects = []\<rparr>
    in mc_model (mcomp w) \<noteq> Some 1 \<and>
       mc_model (mcomp (set_model (Some 1) w)) = Some 2 \<and>
       heap (set_model (Some 1) w) = heap w \<and>
       effects (set_model (Some 1) w) =
         [DebugError ''Invalid attempt to assign a model to multiple ModelComponents''])"
proof -
  let ?mo = "\<lparr>immutable = True, meshInstances = [], owner_entity = Some 7, destroyed = False\<rparr>"
  let ?w = "\<lparr>heap = [1 \<mapsto> ?mo,
                       2 \<mapsto> \<lparr>immutable = True, meshInstances = [], owner_entity = Some 3, destroyed = False\<rparr>],
               mcomp = \<lparr>mc_type = ''asset'', mc_model = Some 2, mc_castShadows = True,
                        mc_receiveShadows = True, mc_isStatic = False, mc_lightmapped = False,
                        mc_customAabb = None, mc_layers = [0], mc_clonedModel = False, mc_enabled = True\<rparr>,
               entity_id = 3, entity_is_enabled = True, entity_has_animation = False,
               entity_anim_playing = None, scene_layer_ids = [0], effects = []\<rparr>"
  have h1: "mc_model (mcomp ?w) \<noteq> Some 1" by simp
  have h2: "heap ?w 1 = Some ?mo" by simp
  have h3: "immutable ?mo" by simp
  show ?thesis
    using C9_owned_model_rejected[OF h1 h2 h3] by (simp add: Let_def)
qed

section \<open>Properties of the layout calculator\<close>

subsection \<open>The order of numbers\<close>

lemma jlt_irrefl [simp]: "\<not> jlt a a"
  by (cases a) simp_all

lemma jle_refl: "a \<noteq> NaN \<Longrightarrow> jle a a"
  by (simp add: jle_def)

lemma jle_NaN [simp]: "\<not> jle NaN a" "\<not> jle a NaN"
  by (cases a; simp add: jle_def)+

lemma jlt_total: "a \<noteq> NaN \<Longrightarrow> b \<noteq> NaN \<Longrightarrow> jlt a b \<or> a = b \<or> jlt b a"
  by (cases a; cases b; auto)

lemma jlt_trans: "jlt a b \<Longrightarrow> jlt b c \<Longrightarrow> jlt a c"
  by (cases a; cases b; cases c; auto)


lemma jle_trans: "jle a b \<Longrightarrow> jle b c \<Longrightarrow> jle a c"
  by (auto simp add: jle_def dest: jlt_trans)

lemma not_jlt_jle: "a \<noteq> NaN \<Longrightarrow> b \<noteq> NaN \<Longrightarrow> \<not> jlt a b \<Longrightarrow> jle b a"
  using jlt_total[of a b] by (auto simp add: jle_def)

lemma jmax_not_NaN: "a \<noteq> NaN \<Longrightarrow> b \<noteq> NaN \<Longrightarrow> jmax a b \<noteq> NaN"
  by (simp add: jmax_def)

lemma jmin_not_NaN: "a \<noteq> NaN \<Longrightarrow> b \<noteq> NaN \<Longrightarrow> jmin a b \<noteq> NaN"
  by (simp add: jmin_def)

lemma jmax_ge2: "a \<noteq> NaN \<Longrightarrow> b \<noteq> NaN \<Longrightarrow> jle b (jmax a b)"
  by (auto simp add: jmax_def jle_refl not_jlt_jle)

lemma jmax_ge1: "a \<noteq> NaN \<Longrightarrow> b \<noteq> NaN \<Longrightarrow> jle a (jmax a b)"
  by (auto simp add: jmax_def jle_refl jle_def)

lemma jmin_le2: "a \<noteq> NaN \<Longrightarrow> b \<noteq> NaN \<Longrightarrow> jle (jmin a b) b"
  by (auto simp add: jmin_def jle_refl not_jlt_jle)

lemma jmin_ge: "a \<noteq> NaN \<Longrightarrow> b \<noteq> NaN \<Longrightarrow> jle c a \<Longrightarrow> jle c b \<Longrightarrow> jle c (jmin a b)"
  by (auto simp add: jmin_def)

lemma clamp_bounds:
  assumes "v \<noteq> NaN" "lo \<noteq> NaN" "hi \<noteq> NaN" "jle lo hi"
  shows "jle lo (clamp v lo hi)" and "jle (clamp v lo hi) hi" and "clamp v lo hi \<noteq> NaN"
proof -
  have m: "jmax v lo \<noteq> NaN" using assms by (simp add: jmax_not_NaN)
  have "jle lo (jmax v lo)" using assms by (simp add: jmax_ge2)
  then show "jle lo (clamp v lo hi)" using assms m by (simp add: clamp_def jmin_ge)
  show "jle (clamp v lo hi) hi" using assms m by (simp add: clamp_def jmin_le2)
  show "clamp v lo hi \<noteq> NaN" using assms m by (simp add: clamp_def jmin_not_NaN)
qed

lemma getProperty_defined: "getProperty e pn \<noteq> PUndefined"
  by (cases pn) (auto simp add: getProperty_def split: option.splits)

lemma to_number_getProperty:
  "getProperty e pn \<noteq> PNum NaN \<Longrightarrow> to_number (getProperty e pn) \<noteq> NaN"
  using getProperty_defined[of e pn] by (cases "getProperty e pn") auto


subsection \<open>Sanitized size records\<close>

lemma elementSizeProperties_sanitized:
  assumes "getProperty e MinWidth \<noteq> PNum NaN" "getProperty e MinHeight \<noteq> PNum NaN"
          "getProperty e MaxWidth \<noteq> PNum NaN" "getProperty e MaxHeight \<noteq> PNum NaN"
          "getProperty e Width \<noteq> PNum NaN" "getProperty e Height \<noteq> PNum NaN"
  shows "sanitized (elementSizeProperties e)"
proof -
  let ?g = "\<lambda>pn. to_number (getProperty e pn)"
  have n: "?g MinWidth \<noteq> NaN" "?g MinHeight \<noteq> NaN" "?g MaxWidth \<noteq> NaN" "?g MaxHeight \<noteq> NaN"
          "?g Width \<noteq> NaN" "?g Height \<noteq> NaN"
    using assms by (simp_all add: to_number_getProperty)
  let ?minW = "jmax (?g MinWidth) (Fin 0)" and ?minH = "jmax (?g MinHeight) (Fin 0)"
  have a: "?minW \<noteq> NaN" "?minH \<noteq> NaN" using n by (simp_all add: jmax_not_NaN)
  let ?maxW = "jmax (?g MaxWidth) ?minW" and ?maxH = "jmax (?g MaxHeight) ?minH"
  have b: "?maxW \<noteq> NaN" "?maxH \<noteq> NaN" using n a by (simp_all add: jmax_not_NaN)
  have c: "jle (Fin 0) ?minW" "jle (Fin 0) ?minH" using n by (simp_all add: jmax_ge2)
  have d: "jle ?minW ?maxW" "jle ?minH ?maxH" using n a by (simp_all add: jmax_ge2)
  show ?thesis
    using c d clamp_bounds[OF n(5) a(1) b(1) d(1)] clamp_bounds[OF n(6) a(2) b(2) d(2)]
    by (simp add: sanitized_def elementSizeProperties_def Let_def jge_def)
qed

text \<open>
  Claim C10, as amended.  For elements whose minimum, maximum and ideal width and
  height, as resolved through the layout child, the element and the defaults, are not
  \<open>NaN\<close>, every size record of \<open>getElementSizeProperties\<close> has minima of at least
  zero, maxima of at least the minima, and an ideal width and height between the
  minimum and the maximum.  The raw values may be negative, infinite, null or
  missing, and a maximum may lie below its minimum.
\<close>

theorem C10_size_records_sanitized:
  assumes "\<forall>e \<in> set elements. \<forall>pn \<in> {MinWidth, MinHeight, MaxWidth, MaxHeight, Width, Height}.
             getProperty e pn \<noteq> PNum NaN"
  shows "\<forall>s \<in> set (getElementSizeProperties elements). sanitized s"
  using assms by (auto simp add: getElementSizeProperties_def intro!: elementSizeProperties_sanitized)

text \<open>
  An element with a negative minimum, a maximum below it and no width, and an element
  whose enabled layout child overrides the width and leaves the rest to the element.
\<close>

theorem C10_size_records_sanitized_witness:
  "(let e1 = plain_element 1 ((\<lambda>p. PUndefined)(MinWidth := PNum (Fin (- 5)),
                MaxWidth := PNum (Fin (- 10)), Width := PNull, MinHeight := PNum (Fin 20),
                MaxHeight := PNum (Fin 10), Height := PNum (Fin 100)));
        e2 = \<lparr>el_id = 2,
              layoutchild = Some \<lparr>lc_enabled = True, lc_excludeFromLayout = False,
                                  lc_props = (\<lambda>p. PNull)(Width := PNum (Fin 300))\<rparr>,
              el_props = (\<lambda>p. PUndefined)(Width := PNum (Fin 7), MaxWidth := PNum (Fin 50))\<rparr>
    in getElementSizeProperties [e1, e2] =
         [\<lparr>minWidth = Fin 0, minHeight = Fin 20, maxWidth = Fin 0, maxHeight = Fin 20,
           width = Fin 0, height = Fin 20,
           fitWidthProportion = PNum (Fin 0), fitHeightProportion = PNum (Fin 0)\<rparr>,
          \<lparr>minWidth = Fin 0, minHeight = Fin 0, maxWidth = Fin 50, maxHeight = PosInf,
           width = Fin 50, height = Fin 0,
           fitWidthProportion = PNum (Fin 0), fitHeightProportion = PNum (Fin 0)\<rparr>] \<and>
       sanitized (getElementSizeProperties [e1, e2] ! 0) \<and>
       sanitized (getElementSizeProperties [e1, e2] ! 1))"
proof -
  let ?e1 = "plain_element 1 ((\<lambda>p. PUndefined)(MinWidth := PNum (Fin (- 5)),
                MaxWidth := PNum (Fin (- 10)), Width := PNull, MinHeight := PNum (Fin 20),
                MaxHeight := PNum (Fin 10), Height := PNum (Fin 100)))"
  let ?e2 = "\<lparr>el_id = 2,
              layoutchild = Some \<lparr>lc_enabled = True, lc_excludeFromLayout = False,
                                  lc_props = (\<lambda>p. PNull)(Width := PNum (Fin 300))\<rparr>,
              el_props = (\<lambda>p. PUndefined)(Width := PNum (Fin 7), MaxWidth := PNum (Fin 50))\<rparr>"
  have h: "\<forall>e \<in> set [?e1, ?e2]. \<forall>pn \<in> {MinWidth, MinHeight, MaxWidth, MaxHeight, Width, Height}.
             getProperty e pn \<noteq> PNum NaN"
    by (simp add: getProperty_def plain_element_def)
  have v: "getElementSizeProperties [?e1, ?e2] =
         [\<lparr>minWidth = Fin 0, minHeight = Fin 20, maxWidth = Fin 0, maxHeight = Fin 20,
           width = Fin 0, height = Fin 20,
           fitWidthProportion = PNum (Fin 0), fitHeightProportion = PNum (Fin 0)\<rparr>,
          \<lparr>minWidth = Fin 0, minHeight = Fin 0, maxWidth = Fin 50, maxHeight = PosInf,
           width = Fin 50, height = Fin 0,
           fitWidthProportion = PNum (Fin 0), fitHeightProportion = PNum (Fin 0)\<rparr>]"
    by (simp add: getElementSizeProperties_def elementSizeProperties_def getProperty_def
        plain_element_def clamp_def jmax_def jmin_def Let_def)
  from C10_size_records_sanitized[OF h]
  have "sanitized (getElementSizeProperties [?e1, ?e2] ! 0)"
   and "sanitized (getElementSizeProperties [?e1, ?e2] ! 1)"
    by (simp_all add: getElementSizeProperties_def)
  with v show ?thesis by (simp add: Let_def)
qed

text \<open>
  The claim as it was stated covers every raw value.  A minimum width of \<open>NaN\<close> is a
  number the element can hold; \<open>Math.max(NaN, 0)\<close> is \<open>NaN\<close>, and the record has a
  minimum width that is not at least zero.
\<close>

theorem C10_nan_counterexample:
  "minWidth (elementSizeProperties (plain_element 1 ((\<lambda>p. PUndefined)(MinWidth := PNum NaN)))) = NaN \<and>
   \<not> jge (minWidth (elementSizeProperties (plain_element 1 ((\<lambda>p. PUndefined)(MinWidth := PNum NaN)))))
          (Fin 0) \<and>
   \<not> sanitized (elementSizeProperties (plain_element 1 ((\<lambda>p. PUndefined)(MinWidth := PNum NaN))))"
  by (simp add: elementSizeProperties_def getProperty_def plain_element_def Let_def jmax_def
      jge_def sanitized_def)

subsection \<open>Splitting into lines\<close>

lemma line_size_Nil [simp]: "line_size gap sz [] = Fin 0"
  by (simp add: line_size_def)

lemma line_size_single [simp]: "line_size gap sz [e] = sz e"
  by (simp add: line_size_def)

lemma line_size_snoc:
  "cur \<noteq> [] \<Longrightarrow> line_size gap sz (cur @ [e]) = jadd (jadd (line_size gap sz cur) gap) (sz e)"
  by (cases cur) (simp_all add: line_size_def)

text \<open>One turn of the loop, case by case.\<close>

lemma split_step_first:
  "split_loop False gap av sz (e # rest) fin [] r = split_loop False gap av sz rest fin [e] (jadd r (sz e))"
  by (simp add: Let_def)

lemma split_step_before:
  "cur \<noteq> [] \<Longrightarrow> jgt (jadd (jadd r gap) (sz e)) av \<Longrightarrow>
   split_loop False gap av sz (e # rest) fin cur r = split_loop False gap av sz rest (fin @ [cur]) [e] (sz e)"
  by (simp add: Let_def)

lemma split_step_stay:
  "cur \<noteq> [] \<Longrightarrow> \<not> jgt (jadd (jadd r gap) (sz e)) av \<Longrightarrow>
   split_loop False gap av sz (e # rest) fin cur r =
   split_loop False gap av sz rest fin (cur @ [e]) (jadd (jadd r gap) (sz e))"
  by (simp add: Let_def)

lemma split_step_after:
  "jgt (jadd (if cur \<noteq> [] then jadd r gap else r) (sz e)) av \<Longrightarrow> rest \<noteq> [] \<Longrightarrow>
   split_loop True gap av sz (e # rest) fin cur r =
   split_loop True gap av sz rest (fin @ [cur @ [e]]) [] (Fin 0)"
  by (simp add: Let_def)

lemma split_step_stay_overrun:
  "\<not> jgt (jadd (if cur \<noteq> [] then jadd r gap else r) (sz e)) av \<or> rest = [] \<Longrightarrow>
   split_loop True gap av sz (e # rest) fin cur r =
   split_loop True gap av sz rest fin (cur @ [e]) (jadd (if cur \<noteq> [] then jadd r gap else r) (sz e))"
  by (auto simp add: Let_def)

declare split_loop.simps(2) [simp del]

lemma split_loop_finished_True:
  "split_loop True gap av sz es (f1 @ f2) cur r = f1 @ split_loop True gap av sz es f2 cur r"
proof (induction es arbitrary: f2 cur r)
  case Nil
  show ?case by simp
next
  case (Cons e es)
  let ?r2 = "jadd (if cur \<noteq> [] then jadd r gap else r) (sz e)"
  show ?case
  proof (cases "jgt ?r2 av \<and> es \<noteq> []")
    case True
    then show ?thesis
      using Cons.IH[of "f2 @ [cur @ [e]]"] by (simp add: split_step_after)
  next
    case False
    then have "\<not> jgt ?r2 av \<or> es = []" by blast
    then show ?thesis
      using Cons.IH[of f2] by (simp add: split_step_stay_overrun)
  qed
qed

lemma split_loop_finished_False:
  "split_loop False gap av sz es (f1 @ f2) cur r = f1 @ split_loop False gap av sz es f2 cur r"
proof (induction es arbitrary: f2 cur r)
  case Nil
  show ?case by simp
next
  case (Cons e es)
  show ?case
  proof (cases "cur = []")
    case True
    then show ?thesis using Cons.IH[of f2] by (simp add: split_step_first)
  next
    case ne: False
    show ?thesis
    proof (cases "jgt (jadd (jadd r gap) (sz e)) av")
      case True
      then show ?thesis using ne Cons.IH[of "f2 @ [cur]"] by (simp add: split_step_before)
    next
      case False
      then show ?thesis using ne Cons.IH[of f2] by (simp add: split_step_stay)
    qed
  qed
qed

lemma split_loop_stay:
  assumes "\<forall>k. 0 < k \<and> k \<le> length es \<and> 2 \<le> length cur + k
             \<longrightarrow> \<not> jgt (line_size gap sz (cur @ take k es)) av"
      and "\<forall>x \<in> set es. js_number (sz x)"
  shows "split_loop False gap av sz (es @ tail) fin cur (line_size gap sz cur) =
         split_loop False gap av sz tail fin (cur @ es) (line_size gap sz (cur @ es))"
  using assms
proof (induction es arbitrary: cur)
  case Nil
  then show ?case by simp
next
  case (Cons e es)
  have ih: "\<forall>k. 0 < k \<and> k \<le> length es \<and> 2 \<le> length (cur @ [e]) + k
             \<longrightarrow> \<not> jgt (line_size gap sz ((cur @ [e]) @ take k es)) av"
  proof (intro allI impI)
    fix k assume k: "0 < k \<and> k \<le> length es \<and> 2 \<le> length (cur @ [e]) + k"
    then have "0 < Suc k \<and> Suc k \<le> length (e # es) \<and> 2 \<le> length cur + Suc k" by simp
    from Cons.prems(1)[rule_format, OF this] show "\<not> jgt (line_size gap sz ((cur @ [e]) @ take k es)) av"
      by simp
  qed
  have js: "js_number (sz e)" "\<forall>x \<in> set es. js_number (sz x)" using Cons.prems(2) by simp_all
  have "split_loop False gap av sz ((e # es) @ tail) fin cur (line_size gap sz cur) =
        split_loop False gap av sz (es @ tail) fin (cur @ [e]) (line_size gap sz (cur @ [e]))"
  proof (cases "cur = []")
    case True
    then show ?thesis by (simp add: split_step_first jadd_zero_left[OF js(1)])
  next
    case False
    then have "2 \<le> length cur + 1" by (cases cur) simp_all
    with Cons.prems(1)[rule_format, of 1] have "\<not> jgt (line_size gap sz (cur @ [e])) av" by simp
    then show ?thesis using False by (simp add: split_step_stay line_size_snoc)
  qed
  also have "\<dots> = split_loop False gap av sz tail fin ((cur @ [e]) @ es) (line_size gap sz ((cur @ [e]) @ es))"
    by (rule Cons.IH[OF ih js(2)])
  finally show ?case by simp
qed

lemma split_loop_stay_overrun:
  assumes "\<forall>k. 0 < k \<and> k \<le> length es \<longrightarrow> \<not> jgt (line_size gap sz (cur @ take k es)) av"
      and "\<forall>x \<in> set es. js_number (sz x)"
  shows "split_loop True gap av sz (es @ tail) fin cur (line_size gap sz cur) =
         split_loop True gap av sz tail fin (cur @ es) (line_size gap sz (cur @ es))"
  using assms
proof (induction es arbitrary: cur)
  case Nil
  then show ?case by simp
next
  case (Cons e es)
  have js: "js_number (sz e)" "\<forall>x \<in> set es. js_number (sz x)" using Cons.prems(2) by simp_all
  have r2: "jadd (if cur \<noteq> [] then jadd (line_size gap sz cur) gap else line_size gap sz cur) (sz e)
              = line_size gap sz (cur @ [e])"
    by (cases "cur = []") (simp_all add: line_size_snoc jadd_zero_left[OF js(1)])
  have nb: "\<not> jgt (line_size gap sz (cur @ [e])) av"
    using Cons.prems(1)[rule_format, of 1] by simp
  have ih: "\<forall>k. 0 < k \<and> k \<le> length es \<longrightarrow> \<not> jgt (line_size gap sz ((cur @ [e]) @ take k es)) av"
  proof (intro allI impI)
    fix k assume k: "0 < k \<and> k \<le> length es"
    then have "0 < Suc k \<and> Suc k \<le> length (e # es)" by simp
    from Cons.prems(1)[rule_format, OF this] show "\<not> jgt (line_size gap sz ((cur @ [e]) @ take k es)) av"
      by simp
  qed
  have "split_loop True gap av sz ((e # es) @ tail) fin cur (line_size gap sz cur) =
        split_loop True gap av sz (es @ tail) fin (cur @ [e]) (line_size gap sz (cur @ [e]))"
    using split_step_stay_overrun[of cur "line_size gap sz cur" gap sz e av "es @ tail" fin] nb r2
    by simp
  also have "\<dots> = split_loop True gap av sz tail fin ((cur @ [e]) @ es) (line_size gap sz ((cur @ [e]) @ es))"
    by (rule Cons.IH[OF ih js(2)])
  finally show ?case by simp
qed

text \<open>Whole lines: when a run of elements stays together and where the next line starts.\<close>

lemma no_overrun_one_line:
  assumes "\<forall>k. 2 \<le> k \<and> k \<le> length es \<longrightarrow> \<not> jgt (line_size gap sz (take k es)) av"
      and "\<forall>x \<in> set es. js_number (sz x)"
  shows "split_loop False gap av sz es [] [] (Fin 0) = [es]"
proof -
  have "\<forall>k. 0 < k \<and> k \<le> length es \<and> 2 \<le> length ([]::'a list) + k
             \<longrightarrow> \<not> jgt (line_size gap sz ([] @ take k es)) av"
    using assms(1) by simp
  from split_loop_stay[OF this assms(2), of "[]" "[]"] show ?thesis by simp
qed

lemma no_overrun_new_line:
  assumes "es \<noteq> []"
      and "\<forall>k. 2 \<le> k \<and> k \<le> length es \<longrightarrow> \<not> jgt (line_size gap sz (take k es)) av"
      and "jgt (line_size gap sz (es @ [e])) av"
      and "\<forall>x \<in> set es. js_number (sz x)" and "js_number (sz e)"
  shows "split_loop False gap av sz (es @ e # rest) [] [] (Fin 0) =
         es # split_loop False gap av sz (e # rest) [] [] (Fin 0)"
proof -
  have "\<forall>k. 0 < k \<and> k \<le> length es \<and> 2 \<le> length ([]::'a list) + k
             \<longrightarrow> \<not> jgt (line_size gap sz ([] @ take k es)) av"
    using assms(2) by simp
  from split_loop_stay[OF this assms(4), of "e # rest" "[]"]
  have "split_loop False gap av sz (es @ e # rest) [] [] (Fin 0) =
        split_loop False gap av sz (e # rest) [] es (line_size gap sz es)" by simp
  also have "\<dots> = split_loop False gap av sz rest ([es] @ []) [e] (sz e)"
    using assms(1) assms(3) by (simp add: split_step_before line_size_snoc)
  also have "\<dots> = [es] @ split_loop False gap av sz rest [] [e] (sz e)"
    by (rule split_loop_finished_False)
  finally show ?thesis by (simp add: split_step_first jadd_zero_left[OF assms(5)])
qed

lemma overrun_one_line:
  assumes "\<forall>k. 1 \<le> k \<and> k \<le> length es \<longrightarrow> \<not> jgt (line_size gap sz (take k es)) av"
      and "\<forall>x \<in> set es. js_number (sz x)"
  shows "split_loop True gap av sz (es @ [e]) [] [] (Fin 0) = [es @ [e]]"
proof -
  have "\<forall>k. 0 < k \<and> k \<le> length es \<longrightarrow> \<not> jgt (line_size gap sz ([] @ take k es)) av"
    using assms(1) by simp
  from split_loop_stay_overrun[OF this assms(2), of "[e]" "[]"] show ?thesis
    by (simp add: split_step_stay_overrun)
qed

lemma overrun_new_line:
  assumes "\<forall>k. 1 \<le> k \<and> k \<le> length es \<longrightarrow> \<not> jgt (line_size gap sz (take k es)) av"
      and "jgt (line_size gap sz (es @ [e])) av" and "rest \<noteq> []"
      and "\<forall>x \<in> set es. js_number (sz x)" and "js_number (sz e)"
  shows "split_loop True gap av sz (es @ e # rest) [] [] (Fin 0) =
         (es @ [e]) # split_loop True gap av sz rest [] [] (Fin 0)"
proof -
  have r2: "jadd (if es \<noteq> [] then jadd (line_size gap sz es) gap else line_size gap sz es) (sz e)
              = line_size gap sz (es @ [e])"
    by (cases "es = []") (simp_all add: line_size_snoc jadd_zero_left[OF assms(5)])
  have "\<forall>k. 0 < k \<and> k \<le> length es \<longrightarrow> \<not> jgt (line_size gap sz ([] @ take k es)) av"
    using assms(1) by simp
  from split_loop_stay_overrun[OF this assms(4), of "e # rest" "[]"]
  have "split_loop True gap av sz (es @ e # rest) [] [] (Fin 0) =
        split_loop True gap av sz (e # rest) [] es (line_size gap sz es)" by simp
  also have "\<dots> = split_loop True gap av sz rest ([es @ [e]] @ []) [] (Fin 0)"
    using split_step_after[of es "line_size gap sz es" gap sz e av rest "[]"] assms(2) assms(3) r2
    by simp
  also have "\<dots> = [es @ [e]] @ split_loop True gap av sz rest [] [] (Fin 0)"
    by (rule split_loop_finished_True)
  finally show ?thesis by simp
qed

text \<open>The ideal sizes of an element of the engine are numbers of the engine.\<close>

lemma js_number_getProperty:
  assumes "js_element e"
  shows "js_number (to_number (getProperty e pn))"
proof -
  have own: "js_prop (el_props e pn)" using assms by (simp add: js_element_def)
  have dflt: "js_prop (PROPERTY_DEFAULTS pn)"
    by (cases pn) (simp_all add: js_prop_def is_double_def)
  have child: "layoutchild e = Some lc \<Longrightarrow> js_prop (lc_props lc pn)" for lc
    using assms by (simp add: js_element_def)
  have "js_prop (getProperty e pn)"
    using own dflt child by (auto simp add: getProperty_def split: option.splits)
  then show ?thesis
    by (cases "getProperty e pn") (simp_all add: js_prop_def is_double_def)
qed

lemma js_number_ideal_size:
  assumes "js_element e"
  shows "js_number (size_of a (elementSizeProperties e))"
proof -
  note g = js_number_getProperty[OF assms]
  have z: "js_number (Fin 0)" by (simp add: is_double_def)
  show ?thesis
    unfolding size_of_def elementSizeProperties_def Let_def clamp_def
    by (cases a) (auto intro!: js_number_jmax js_number_jmin g z)
qed

text \<open>
  Claim C4.  With wrapping enabled the running size of a line is the sum of the ideal
  sizes of its elements on the primary axis with the spacing between them, added from
  left to right in the arithmetic of the engine.  Under the fitting modes other than
  shrink, elements stay on one line as long as the running size of the line with them
  does not exceed the available space (a first element always stays); an element with
  which the running size would exceed it starts the next line, and the split goes on
  from that element with a fresh running size.  Under the shrink mode the element with
  which the running size exceeds the available space still goes on the line, and the
  next line starts with the element after it, if there is one.  A running size equal to
  the available space does not exceed it.  The options and the elements are values of
  the engine: the numbers they hold are doubles, \<open>NaN\<close> or an infinity.
\<close>

theorem C4_split_lines:
  assumes "wrap opts" and "js_options opts" and "\<forall>x \<in> set (es @ e # rest). js_element x"
  shows "(fitting_of a opts \<noteq> FITTING_SHRINK \<and>
            (\<forall>k. 2 \<le> k \<and> k \<le> length es \<longrightarrow> \<not> overruns opts a (take k es))
          \<longrightarrow> splitLines opts a es = [es]) \<and>
         (fitting_of a opts \<noteq> FITTING_SHRINK \<and> es \<noteq> [] \<and>
            (\<forall>k. 2 \<le> k \<and> k \<le> length es \<longrightarrow> \<not> overruns opts a (take k es)) \<and>
            overruns opts a (es @ [e])
          \<longrightarrow> splitLines opts a (es @ e # rest) = es # splitLines opts a (e # rest)) \<and>
         (fitting_of a opts = FITTING_SHRINK \<and>
            (\<forall>k. 1 \<le> k \<and> k \<le> length es \<longrightarrow> \<not> overruns opts a (take k es))
          \<longrightarrow> splitLines opts a (es @ [e]) = [es @ [e]]) \<and>
         (fitting_of a opts = FITTING_SHRINK \<and>
            (\<forall>k. 1 \<le> k \<and> k \<le> length es \<longrightarrow> \<not> overruns opts a (take k es)) \<and>
            overruns opts a (es @ [e]) \<and> rest \<noteq> []
          \<longrightarrow> splitLines opts a (es @ e # rest) = (es @ [e]) # splitLines opts a rest) \<and>
         (running_size opts a es = axis_of a (availableSpace opts) \<longrightarrow> \<not> overruns opts a es)"
proof -
  let ?gap = "axis_of a (spacing opts)" and ?av = "axis_of a (availableSpace opts)"
  let ?sz = "\<lambda>e. size_of a (elementSizeProperties e)"
  have js: "\<forall>x \<in> set es. js_number (?sz x)" and jse: "js_number (?sz e)"
    using assms(3) by (simp_all add: js_number_ideal_size)
  have 1: "fitting_of a opts \<noteq> FITTING_SHRINK \<and>
            (\<forall>k. 2 \<le> k \<and> k \<le> length es \<longrightarrow> \<not> overruns opts a (take k es))
          \<longrightarrow> splitLines opts a es = [es]"
    using assms(1) no_overrun_one_line[of es ?gap ?sz ?av, OF _ js]
    by (simp add: splitLines_def overruns_def running_size_def)
  have 2: "fitting_of a opts \<noteq> FITTING_SHRINK \<and> es \<noteq> [] \<and>
            (\<forall>k. 2 \<le> k \<and> k \<le> length es \<longrightarrow> \<not> overruns opts a (take k es)) \<and>
            overruns opts a (es @ [e])
          \<longrightarrow> splitLines opts a (es @ e # rest) = es # splitLines opts a (e # rest)"
    using assms(1) no_overrun_new_line[of es ?gap ?sz ?av e rest, OF _ _ _ js jse]
    by (simp add: splitLines_def overruns_def running_size_def)
  have 3: "fitting_of a opts = FITTING_SHRINK \<and>
            (\<forall>k. 1 \<le> k \<and> k \<le> length es \<longrightarrow> \<not> overruns opts a (take k es))
          \<longrightarrow> splitLines opts a (es @ [e]) = [es @ [e]]"
    using assms(1) overrun_one_line[of es ?gap ?sz ?av e, OF _ js]
    by (simp add: splitLines_def overruns_def running_size_def)
  have 4: "fitting_of a opts = FITTING_SHRINK \<and>
            (\<forall>k. 1 \<le> k \<and> k \<le> length es \<longrightarrow> \<not> overruns opts a (take k es)) \<and>
            overruns opts a (es @ [e]) \<and> rest \<noteq> []
          \<longrightarrow> splitLines opts a (es @ e # rest) = (es @ [e]) # splitLines opts a rest"
    using assms(1) overrun_new_line[of es ?gap ?sz ?av e rest, OF _ _ _ js jse]
    by (simp add: splitLines_def overruns_def running_size_def)
  have 5: "running_size opts a es = axis_of a (availableSpace opts) \<longrightarrow> \<not> overruns opts a es"
    by (simp add: overruns_def jgt_def)
  from 1 2 3 4 5 show ?thesis by blast
qed

lemma el_width:
  "size_of ORIENTATION_HORIZONTAL
     (elementSizeProperties (plain_element i ((\<lambda>p. PUndefined)(Width := PNum (Fin w))))) =
     Fin (max w 0)"
  by (simp add: size_of_def elementSizeProperties_def getProperty_def plain_element_def clamp_def
      jmax_def jmin_def Let_def max_def)

lemma el_js:
  "is_double w \<Longrightarrow> js_element (plain_element i ((\<lambda>p. PUndefined)(Width := PNum (Fin w))))"
  by (simp add: js_element_def plain_element_def js_prop_def)

text \<open>
  Elements of widths 40, 50 and 1 with a spacing of 10 in a space of 100: the first two
  fill the space exactly and stay on one line, the third starts the next line, and
  under the shrink mode it still goes on the first.  And elements of widths \<open>2^53\<close> and
  1 in a space of \<open>2^53\<close>: their running size is \<open>2^53\<close>, the double nearest to the
  exact sum, and they stay on one line.
\<close>

theorem C4_split_lines_witness:
  "(let opts = \<lparr>orientation = ORIENTATION_HORIZONTAL, wrap = True, widthFitting = FITTING_NONE,
                 heightFitting = FITTING_NONE, spacing = \<lparr>vx = Fin 10, vy = Fin 0\<rparr>,
                 containerSize = \<lparr>vx = Fin 110, vy = Fin 50\<rparr>,
                 padding = \<lparr>px = Fin 5, py = Fin 0, pz = Fin 5, pw = Fin 0\<rparr>,
                 alignment = \<lparr>vx = Fin 0, vy = Fin 0\<rparr>, reverseX = False, reverseY = False\<rparr>;
        shrink = opts\<lparr>widthFitting := FITTING_SHRINK\<rparr>;
        wide = opts\<lparr>spacing := \<lparr>vx = Fin 0, vy = Fin 0\<rparr>,
                    containerSize := \<lparr>vx = Fin 9007199254740992, vy = Fin 50\<rparr>,
                    padding := \<lparr>px = Fin 0, py = Fin 0, pz = Fin 0, pw = Fin 0\<rparr>\<rparr>;
        A = plain_element 1 ((\<lambda>p. PUndefined)(Width := PNum (Fin 40)));
        B = plain_element 2 ((\<lambda>p. PUndefined)(Width := PNum (Fin 50)));
        C = plain_element 3 ((\<lambda>p. PUndefined)(Width := PNum (Fin 1)));
        P = plain_element 4 ((\<lambda>p. PUndefined)(Width := PNum (Fin 9007199254740992)))
    in wrap opts \<and> js_options opts \<and> js_options shrink \<and> js_options wide \<and>
       js_element A \<and> js_element B \<and> js_element C \<and> js_element P \<and>
       axis_of ORIENTATION_HORIZONTAL (availableSpace opts) = Fin 100 \<and>
       running_size opts ORIENTATION_HORIZONTAL [A, B] = Fin 100 \<and>
       splitLines opts ORIENTATION_HORIZONTAL [A, B] = [[A, B]] \<and>
       running_size opts ORIENTATION_HORIZONTAL [A, B, C] = Fin 111 \<and>
       splitLines opts ORIENTATION_HORIZONTAL [A, B, C] = [[A, B], [C]] \<and>
       splitLines shrink ORIENTATION_HORIZONTAL [A, B, C, C] = [[A, B, C], [C]] \<and>
       axis_of ORIENTATION_HORIZONTAL (availableSpace wide) = Fin 9007199254740992 \<and>
       running_size wide ORIENTATION_HORIZONTAL [P, C] = Fin 9007199254740992 \<and>
       splitLines wide ORIENTATION_HORIZONTAL [P, C] = [[P, C]])"
proof -
  let ?opts = "\<lparr>orientation = ORIENTATION_HORIZONTAL, wrap = True, widthFitting = FITTING_NONE,
                 heightFitting = FITTING_NONE, spacing = \<lparr>vx = Fin 10, vy = Fin 0\<rparr>,
                 containerSize = \<lparr>vx = Fin 110, vy = Fin 50\<rparr>,
                 padding = \<lparr>px = Fin 5, py = Fin 0, pz = Fin 5, pw = Fin 0\<rparr>,
                 alignment = \<lparr>vx = Fin 0, vy = Fin 0\<rparr>, reverseX = False, reverseY = False\<rparr>"
  let ?shrink = "?opts\<lparr>widthFitting := FITTING_SHRINK\<rparr>"
  let ?wide = "?opts\<lparr>spacing := \<lparr>vx = Fin 0, vy = Fin 0\<rparr>,
                    containerSize := \<lparr>vx = Fin 9007199254740992, vy = Fin 50\<rparr>,
                    padding := \<lparr>px = Fin 0, py = Fin 0, pz = Fin 0, pw = Fin 0\<rparr>\<rparr>"
  let ?H = ORIENTATION_HORIZONTAL
  let ?A = "plain_element 1 ((\<lambda>p. PUndefined)(Width := PNum (Fin 40)))"
  let ?B = "plain_element 2 ((\<lambda>p. PUndefined)(Width := PNum (Fin 50)))"
  let ?C = "plain_element 3 ((\<lambda>p. PUndefined)(Width := PNum (Fin 1)))"
  let ?P = "plain_element 4 ((\<lambda>p. PUndefined)(Width := PNum (Fin 9007199254740992)))"
  have d: "is_double 40" "is_double 50" "is_double 1" "is_double 9007199254740992"
    "is_double 10" "is_double 110" "is_double 5"
    by (simp_all add: is_double_def rnd_eval)
  have jo: "js_options ?opts" "js_options ?shrink" "js_options ?wide"
    using d by (simp_all add: js_options_def is_double_def)
  have js: "js_element ?A" "js_element ?B" "js_element ?C" "js_element ?P"
    using d by (simp_all add: el_js)
  have av: "axis_of ?H (availableSpace ?opts) = Fin 100" "axis_of ?H (availableSpace ?shrink) = Fin 100"
    "axis_of ?H (availableSpace ?wide) = Fin 9007199254740992"
    by (simp_all add: axis_of_def availableSpace_def jsub_def rnd_eval)
  have rs: "\<And>o'. vx (spacing o') = Fin 10 \<Longrightarrow>
      running_size o' ?H [?A] = Fin 40 \<and> running_size o' ?H [?A, ?B] = Fin 100 \<and>
      running_size o' ?H [?A, ?B, ?C] = Fin 111 \<and> running_size o' ?H [?C] = Fin 1"
    by (simp add: running_size_def line_size_def axis_of_def el_width rnd_eval)
  note r1 = rs[of ?opts, simplified] and r2 = rs[of ?shrink, simplified]
  have r3: "running_size ?wide ?H [?P, ?C] = Fin 9007199254740992"
    by (simp add: running_size_def line_size_def axis_of_def el_width rnd_eval)
  have fit1: "\<forall>k. 2 \<le> k \<and> k \<le> length [?A, ?B] \<longrightarrow> \<not> overruns ?opts ?H (take k [?A, ?B])"
  proof (intro allI impI)
    fix k :: nat assume "2 \<le> k \<and> k \<le> length [?A, ?B]"
    then have "k = 2" by simp
    then show "\<not> overruns ?opts ?H (take k [?A, ?B])"
      using r1 av by (simp add: overruns_def jgt_def)
  qed
  have fit2: "\<forall>k. 1 \<le> k \<and> k \<le> length [?A, ?B] \<longrightarrow> \<not> overruns ?shrink ?H (take k [?A, ?B])"
  proof (intro allI impI)
    fix k :: nat assume "1 \<le> k \<and> k \<le> length [?A, ?B]"
    then have "k = 1 \<or> k = 2" by auto
    then show "\<not> overruns ?shrink ?H (take k [?A, ?B])"
      using r2 av by (auto simp add: overruns_def jgt_def)
  qed
  have fit5: "\<forall>k. 2 \<le> k \<and> k \<le> length [?P, ?C] \<longrightarrow> \<not> overruns ?wide ?H (take k [?P, ?C])"
  proof (intro allI impI)
    fix k :: nat assume "2 \<le> k \<and> k \<le> length [?P, ?C]"
    then have "k = 2" by simp
    then show "\<not> overruns ?wide ?H (take k [?P, ?C])"
      using r3 av by (simp add: overruns_def jgt_def)
  qed
  have over1: "overruns ?opts ?H ([?A, ?B] @ [?C])" and over2: "overruns ?shrink ?H ([?A, ?B] @ [?C])"
    using r1 r2 av by (simp_all add: overruns_def jgt_def)
  have w: "wrap ?opts" "wrap ?shrink" "wrap ?wide" by simp_all
  have f: "fitting_of ?H ?opts \<noteq> FITTING_SHRINK" "fitting_of ?H ?shrink = FITTING_SHRINK"
    "fitting_of ?H ?wide \<noteq> FITTING_SHRINK"
    by (simp_all add: fitting_of_def)
  have s1: "splitLines ?opts ?H [?A, ?B] = [[?A, ?B]]"
    using C4_split_lines[OF w(1) jo(1), of "[?A, ?B]" ?C "[]" ?H] js f(1) fit1 by simp
  have fit3: "\<forall>k. 2 \<le> k \<and> k \<le> length [?C] \<longrightarrow> \<not> overruns ?opts ?H (take k [?C])"
    by auto
  have s2: "splitLines ?opts ?H [?C] = [[?C]]"
    using C4_split_lines[OF w(1) jo(1), of "[?C]" ?C "[]" ?H] js f(1) fit3 by simp
  have s3: "splitLines ?opts ?H ([?A, ?B] @ ?C # []) = [?A, ?B] # splitLines ?opts ?H (?C # [])"
    using C4_split_lines[OF w(1) jo(1), of "[?A, ?B]" ?C "[]" ?H] js f(1) fit1 over1 by simp
  have fit4: "\<forall>k. 1 \<le> k \<and> k \<le> length ([]::element list) \<longrightarrow> \<not> overruns ?shrink ?H (take k [])"
    by auto
  have s4: "splitLines ?shrink ?H ([] @ [?C]) = [[] @ [?C]]"
    using C4_split_lines[OF w(2) jo(2), of "[]" ?C "[]" ?H] js f(2) fit4 by simp
  have s5: "splitLines ?shrink ?H ([?A, ?B] @ ?C # [?C]) = ([?A, ?B] @ [?C]) # splitLines ?shrink ?H [?C]"
    using C4_split_lines[OF w(2) jo(2), of "[?A, ?B]" ?C "[?C]" ?H] js f(2) fit2 over2 by simp
  have s6: "splitLines ?wide ?H [?P, ?C] = [[?P, ?C]]"
    using C4_split_lines[OF w(3) jo(3), of "[?P, ?C]" ?C "[]" ?H] js f(3) fit5 by simp
  show ?thesis
    using w(1) jo js av r1 r3 s1 s2 s3 s4 s5 s6 by (simp add: Let_def)
qed

subsection \<open>Stretching a line\<close>

lemma size_of_set_size [simp]: "size_of a (set_size a v s) = v"
  by (cases a) (simp_all add: size_of_def set_size_def)

lemma maxSize_of_set_size [simp]: "maxSize_of a (set_size a v s) = maxSize_of a s"
  by (cases a) (simp_all add: maxSize_of_def set_size_def)

text \<open>The traversal order is a permutation of the indices, sorted by the key.\<close>

lemma set_insert_by [simp]: "set (insert_by cmp x ys) = insert x (set ys)"
  by (induction ys) auto

lemma distinct_insert_by [simp]: "distinct (insert_by cmp x ys) = (x \<notin> set ys \<and> distinct ys)"
  by (induction ys) auto

lemma set_sort_by [simp]: "set (sort_by cmp xs) = set xs"
  by (induction xs) (simp_all add: sort_by_def)

lemma distinct_sort_by [simp]: "distinct (sort_by cmp xs) = distinct xs"
proof (induction xs)
  case Nil
  show ?case by (simp add: sort_by_def)
next
  case (Cons x xs)
  have "sort_by cmp (x # xs) = insert_by cmp x (sort_by cmp xs)" by (simp add: sort_by_def)
  then show ?case using Cons by simp
qed











lemma length_getNormalizedValues [simp]: "length (getNormalizedValues f items) = length items"
  by (simp add: getNormalizedValues_def Let_def)








end
